theory Spec2Isabelle
  imports Main "HOL-Library.AList"
begin

section \<open>Python values\<close>

text \<open>
  The module works on loosely typed dictionaries: the module parameters, the request data
  it assembles, and the JSON records the Foreman API returns. A value is \<open>None\<close>, a boolean,
  an integer, a string, a list or a dictionary. A dictionary is an association list in
  insertion order with one entry per key. Floating point numbers are left out.
\<close>

datatype pyval =
    PNone
  | PBool bool
  | PInt int
  | PStr string
  | PList "pyval list"
  | PDict "(string \<times> pyval) list"

type_synonym pydict = "(string \<times> pyval) list"

text \<open>
  Python's \<open>==\<close>: \<open>True == 1\<close> and \<open>False == 0\<close> hold, lists compare elementwise and
  dictionaries compare as mappings, whatever the order of their entries.
\<close>

fun py_eq :: "pyval \<Rightarrow> pyval \<Rightarrow> bool" where
  "py_eq PNone PNone = True"
| "py_eq (PBool a) (PBool b) = (a = b)"
| "py_eq (PBool a) (PInt b) = ((if a then 1 else 0) = b)"
| "py_eq (PInt a) (PBool b) = (a = (if b then 1 else 0))"
| "py_eq (PInt a) (PInt b) = (a = b)"
| "py_eq (PStr a) (PStr b) = (a = b)"
| "py_eq (PList xs) (PList ys) = list_all2 py_eq xs ys"
| "py_eq (PDict d) (PDict e) =
     (list_all (\<lambda>(k, v). case map_of e k of None \<Rightarrow> False | Some w \<Rightarrow> py_eq v w) d
      \<and> list_all (\<lambda>(k, w). map_of d k \<noteq> None) e)"
| "py_eq _ _ = False"

text \<open>Truth value testing, as \<open>if x:\<close> and \<open>not x\<close> do it.\<close>

fun truthy :: "pyval \<Rightarrow> bool" where
  "truthy PNone = False"
| "truthy (PBool b) = b"
| "truthy (PInt i) = (i \<noteq> 0)"
| "truthy (PStr s) = (s \<noteq> [])"
| "truthy (PList xs) = (xs \<noteq> [])"
| "truthy (PDict d) = (d \<noteq> [])"

text \<open>
  What can go wrong. \<open>module.fail_json\<close> ends the run with a message; each message of the
  module is a constructor that carries the arguments of its format string:
  \<^item> \<open>CouldNotFindResource resource_type spec\<close>:
    "Could not find resource type {resource_type} defined as {spec}";
  \<^item> \<open>CouldNotSearchResource resource_type spec error\<close>:
    "Could not search resource type {resource_type} defined as {spec}: {error}";
  \<^item> \<open>CouldNotGetSubnet\<close>, \<open>CouldNotCreateSubnet\<close>, \<open>CouldNotDeleteSubnet\<close>,
    \<open>CouldNotUpdateSubnet\<close>: "Could not ... subnet: {0}" with the client's message.
  A Python exception that no handler of the module catches ends the run as well.
\<close>

datatype py_exception = KeyError string | TypeError | IndexError

datatype fail_msg =
    CouldNotFindResource string pyval
  | CouldNotSearchResource string pyval string
  | CouldNotGetSubnet string
  | CouldNotCreateSubnet string
  | CouldNotDeleteSubnet string
  | CouldNotUpdateSubnet string

datatype failure = FailJson fail_msg | Uncaught py_exception

text \<open>\<open>d.get(k, None)\<close>, \<open>d[k]\<close> and \<open>d[k] = v\<close> on a dictionary.\<close>

definition dict_get :: "pydict \<Rightarrow> string \<Rightarrow> pyval" where
  "dict_get d k = (case map_of d k of None \<Rightarrow> PNone | Some v \<Rightarrow> v)"

definition dict_index :: "pydict \<Rightarrow> string \<Rightarrow> failure + pyval" where
  "dict_index d k = (case map_of d k of None \<Rightarrow> Inl (Uncaught (KeyError k)) | Some v \<Rightarrow> Inr v)"

definition dict_set :: "pydict \<Rightarrow> string \<Rightarrow> pyval \<Rightarrow> pydict" where
  "dict_set d k v = AList.update k v d"

text \<open>\<open>v[k]\<close> on any value: only a dictionary can be subscripted with a string.\<close>

definition subscript :: "pyval \<Rightarrow> string \<Rightarrow> failure + pyval" where
  "subscript v k = (case v of PDict d \<Rightarrow> dict_index d k | _ \<Rightarrow> Inl (Uncaught TypeError))"

text \<open>
  Iteration (\<open>for item in v\<close>, \<open>map(f, v)\<close>): a list yields its elements, a string its
  characters, a dictionary its keys; nothing else is iterable.
\<close>

definition py_iter :: "pyval \<Rightarrow> failure + pyval list" where
  "py_iter v =
     (case v of
        PList xs \<Rightarrow> Inr xs
      | PStr s \<Rightarrow> Inr (map (\<lambda>c. PStr [c]) s)
      | PDict d \<Rightarrow> Inr (map (\<lambda>(k, _). PStr k) d)
      | _ \<Rightarrow> Inl (Uncaught TypeError))"

text \<open>\<open>map(f, xs)\<close> where \<open>f\<close> may raise: the first exception from the left ends it.\<close>

primrec map_raise :: "('a \<Rightarrow> failure + 'b) \<Rightarrow> 'a list \<Rightarrow> failure + 'b list" where
  "map_raise f [] = Inr []"
| "map_raise f (x # xs) =
     (case f x of
        Inl e \<Rightarrow> Inl e
      | Inr y \<Rightarrow> (case map_raise f xs of Inl e \<Rightarrow> Inl e | Inr ys \<Rightarrow> Inr (y # ys)))"

section \<open>Comparing desired data with a remote subnet\<close>

text \<open>
  \<open>list.sort()\<close> sorts the list in place and returns \<open>None\<close>. The source binds the value
  of the call, so the sorted list itself is dropped. Python 2, which the module is
  written for, orders any two values, so the call itself does not raise. (Under Python 3
  it raises \<open>TypeError\<close> when two names cannot be ordered, as a string and \<open>None\<close>;
  the names of the records dealt with here are strings.)
\<close>

definition list_sort :: "pyval list \<Rightarrow> pyval" where
  "list_sort xs = PNone"

text \<open>\<open>list(map(lambda d: d['name'], rec['domains']))\<close>.\<close>

definition domain_names :: "pydict \<Rightarrow> failure + pyval list" where
  "domain_names rec =
     (case dict_index rec ''domains'' of
        Inl e \<Rightarrow> Inl e
      | Inr v \<Rightarrow>
          (case py_iter v of
             Inl e \<Rightarrow> Inl e
           | Inr items \<Rightarrow> map_raise (\<lambda>d. subscript d ''name'') items))"

definition domains_equal :: "pydict \<Rightarrow> pydict \<Rightarrow> failure + bool" where
  "domains_equal data subnet =
     (case domain_names data of
        Inl e \<Rightarrow> Inl e
      | Inr dn \<Rightarrow>
          (case domain_names subnet of
             Inl e \<Rightarrow> Inl e
           | Inr sn \<Rightarrow>
               (let data_domains = list_sort dn;
                    subnet_domains = list_sort sn
                in if \<not> py_eq data_domains subnet_domains then Inr False else Inr True)))"

definition comparable_keys :: "string list" where
  "comparable_keys =
     [''name'', ''dns_primary'', ''dns_secondary'', ''gateway'', ''ipam'', ''boot_mode'',
      ''mask'', ''network'', ''vlanid'', ''from'', ''to'', ''tftp_id'', ''dns_id'',
      ''dhcp_id'', ''discovery_id'']"

text \<open>
  \<open>organizations_equal\<close> and \<open>locations_equal\<close> come from the module's utility library
  (\<open>foreman_utils\<close>), which is not among the sources. Both compare the request data
  with the remote record and may raise; they are parameters of everything below.
\<close>

record foreman_utils =
  organizations_equal :: "pydict \<Rightarrow> pydict \<Rightarrow> failure + bool"
  locations_equal :: "pydict \<Rightarrow> pydict \<Rightarrow> failure + bool"

definition subnets_equal :: "foreman_utils \<Rightarrow> pydict \<Rightarrow> pydict \<Rightarrow> failure + bool" where
  "subnets_equal u data subnet =
     (if \<not> list_all (\<lambda>key. py_eq (dict_get data key) (dict_get subnet key)) comparable_keys
      then Inr False
      else (case domains_equal data subnet of
        Inl e \<Rightarrow> Inl e
      | Inr de \<Rightarrow>
          (if \<not> de then Inr False
           else (case organizations_equal u data subnet of
             Inl e \<Rightarrow> Inl e
           | Inr oe \<Rightarrow>
               (if \<not> oe then Inr False
                else (case locations_equal u data subnet of
                  Inl e \<Rightarrow> Inl e
                | Inr le \<Rightarrow> (if \<not> le then Inr False else Inr True)))))))"

section \<open>The remote client and the runs of the module\<close>

text \<open>
  The Foreman client is an external library. The module uses six of its operations; each
  either returns a record (or \<open>None\<close>) or raises \<open>ForemanError\<close> with a message
  (\<open>Inl\<close>). The remote system is a state of any type \<open>'s\<close>: searching and getting read
  it, creating, updating and deleting may change it.
\<close>

record 's foreman =
  search_resource :: "string \<Rightarrow> pydict \<Rightarrow> 's \<Rightarrow> string + pydict option"
  search_subnet :: "pydict \<Rightarrow> 's \<Rightarrow> string + pydict option"
  get_subnet :: "pyval \<Rightarrow> 's \<Rightarrow> string + pydict option"
  create_subnet :: "pydict \<Rightarrow> 's \<Rightarrow> (string + pydict option) \<times> 's"
  update_subnet :: "pyval \<Rightarrow> pydict \<Rightarrow> 's \<Rightarrow> (string + pydict option) \<times> 's"
  delete_subnet :: "pyval \<Rightarrow> 's \<Rightarrow> (string + pydict option) \<times> 's"

text \<open>The calls a run issues to the client, in order.\<close>

datatype call =
    SearchSubnet pydict
  | GetSubnet pyval
  | SearchResource string pydict
  | CreateSubnet pydict
  | UpdateSubnet pyval pydict
  | DeleteSubnet pyval

fun is_mutating :: "call \<Rightarrow> bool" where
  "is_mutating (CreateSubnet d) = True"
| "is_mutating (UpdateSubnet i d) = True"
| "is_mutating (DeleteSubnet i) = True"
| "is_mutating c = False"

fun is_subnet_read :: "call \<Rightarrow> bool" where
  "is_subnet_read (SearchSubnet d) = True"
| "is_subnet_read (GetSubnet i) = True"
| "is_subnet_read c = False"

fun is_lookup :: "call \<Rightarrow> bool" where
  "is_lookup (SearchResource rt d) = True"
| "is_lookup c = False"

text \<open>
  A computation of the module starts in a remote state and ends with a value or a
  failure, the remote state it leaves, and the calls it issued.
\<close>

type_synonym ('s, 'a) run = "'s \<Rightarrow> (failure + 'a) \<times> 's \<times> call list"

definition ret :: "'a \<Rightarrow> ('s, 'a) run" where
  "ret x = (\<lambda>s. (Inr x, s, []))"

definition raise :: "failure \<Rightarrow> ('s, 'a) run" where
  "raise e = (\<lambda>s. (Inl e, s, []))"

definition fail_json :: "fail_msg \<Rightarrow> ('s, 'a) run" where
  "fail_json m = raise (FailJson m)"

definition lift :: "failure + 'a \<Rightarrow> ('s, 'a) run" where
  "lift r = (\<lambda>s. (r, s, []))"

definition bind :: "('s, 'a) run \<Rightarrow> ('a \<Rightarrow> ('s, 'b) run) \<Rightarrow> ('s, 'b) run" where
  "bind m f =
     (\<lambda>s. case m s of
        (Inl e, s', cs) \<Rightarrow> (Inl e, s', cs)
      | (Inr x, s', cs) \<Rightarrow> (case f x s' of (r, s'', cs') \<Rightarrow> (r, s'', cs @ cs')))"

text \<open>One call to the client: the outcome of the operation, and the call in the log.\<close>

definition do_search_resource ::
  "'s foreman \<Rightarrow> string \<Rightarrow> pydict \<Rightarrow> ('s, string + pydict option) run" where
  "do_search_resource c rt d = (\<lambda>s. (Inr (search_resource c rt d s), s, [SearchResource rt d]))"

definition do_search_subnet :: "'s foreman \<Rightarrow> pydict \<Rightarrow> ('s, string + pydict option) run" where
  "do_search_subnet c d = (\<lambda>s. (Inr (search_subnet c d s), s, [SearchSubnet d]))"

definition do_get_subnet :: "'s foreman \<Rightarrow> pyval \<Rightarrow> ('s, string + pydict option) run" where
  "do_get_subnet c i = (\<lambda>s. (Inr (get_subnet c i s), s, [GetSubnet i]))"

definition do_create_subnet :: "'s foreman \<Rightarrow> pydict \<Rightarrow> ('s, string + pydict option) run" where
  "do_create_subnet c d =
     (\<lambda>s. case create_subnet c d s of (r, s') \<Rightarrow> (Inr r, s', [CreateSubnet d]))"

definition do_update_subnet ::
  "'s foreman \<Rightarrow> pyval \<Rightarrow> pydict \<Rightarrow> ('s, string + pydict option) run" where
  "do_update_subnet c i d =
     (\<lambda>s. case update_subnet c i d s of (r, s') \<Rightarrow> (Inr r, s', [UpdateSubnet i d]))"

definition do_delete_subnet :: "'s foreman \<Rightarrow> pyval \<Rightarrow> ('s, string + pydict option) run" where
  "do_delete_subnet c i =
     (\<lambda>s. case delete_subnet c i s of (r, s') \<Rightarrow> (Inr r, s', [DeleteSubnet i]))"

text \<open>Truth value of what the client returned: \<open>None\<close> and the empty record are false.\<close>

definition found :: "pydict option \<Rightarrow> bool" where
  "found r = (case r of None \<Rightarrow> False | Some d \<Rightarrow> d \<noteq> [])"

text \<open>\<open>r.get('id')\<close> on a record the client returned, where the source has checked it.\<close>

definition record_id :: "pydict option \<Rightarrow> pyval" where
  "record_id r = (case r of None \<Rightarrow> PNone | Some d \<Rightarrow> dict_get d ''id'')"

section \<open>Resolving references\<close>

text \<open>
  \<open>get_resources\<close>: the query for an item is the item itself when it is a dictionary
  and \<open>{'name': item}\<close> otherwise.
\<close>

definition search_data :: "pyval \<Rightarrow> pydict" where
  "search_data item =
     (case item of
        PDict d \<Rightarrow> foldl (\<lambda>acc (k, v). dict_set acc k v) [] d
      | _ \<Rightarrow> dict_set [] ''name'' item)"

primrec get_resources_loop ::
  "'s foreman \<Rightarrow> string \<Rightarrow> pyval list \<Rightarrow> pydict list \<Rightarrow> ('s, pydict list) run" where
  "get_resources_loop c rt [] result = ret result"
| "get_resources_loop c rt (item # rest) result =
     bind (do_search_resource c rt (search_data item)) (\<lambda>r.
       case r of
         Inl error \<Rightarrow> fail_json (CouldNotSearchResource rt item error)
       | Inr resource \<Rightarrow>
           (case resource of
              None \<Rightarrow> fail_json (CouldNotFindResource rt item)
            | Some d \<Rightarrow>
                (if d = [] then fail_json (CouldNotFindResource rt item)
                 else get_resources_loop c rt rest (result @ [d]))))"

definition get_resources :: "'s foreman \<Rightarrow> string \<Rightarrow> pyval \<Rightarrow> ('s, pydict list) run" where
  "get_resources c rt resource_specs =
     bind (lift (py_iter resource_specs)) (\<lambda>items. get_resources_loop c rt items [])"

text \<open>
  Modelled from the spec: \<open>get_organization_ids\<close> and \<open>get_location_ids\<close> belong to the
  utility library \<open>foreman_utils\<close>, which is not among the sources. The spec, 4.1 step 1: for
  every named association (domains, organizations, locations, each proxy role), call the
  client's search-by-name operation; if a named reference is not found, fail at once with
  a "resource not found" error that identifies the resource type and the offending name.
  The result is the list of the identifiers found.
\<close>

definition get_resource_ids :: "'s foreman \<Rightarrow> string \<Rightarrow> pyval \<Rightarrow> ('s, pyval) run" where
  "get_resource_ids c rt names =
     bind (get_resources c rt names) (\<lambda>rs. ret (PList (map (\<lambda>r. dict_get r ''id'') rs)))"

definition get_organization_ids :: "'s foreman \<Rightarrow> pyval \<Rightarrow> ('s, pyval) run" where
  "get_organization_ids c organizations = get_resource_ids c ''organizations'' organizations"

definition get_location_ids :: "'s foreman \<Rightarrow> pyval \<Rightarrow> ('s, pyval) run" where
  "get_location_ids c locations = get_resource_ids c ''locations'' locations"

section \<open>Preparing the request data\<close>

definition param_keys :: "string list" where
  "param_keys =
     [''dns_primary'', ''dns_secondary'', ''gateway'', ''ipam'', ''boot_mode'', ''mask'',
      ''network'', ''vlanid'', ''domains'']"

text \<open>\<open>if key in module.params: data[target] = module.params[key]\<close>.\<close>

definition copy_param :: "pydict \<Rightarrow> string \<Rightarrow> string \<Rightarrow> pydict \<Rightarrow> pydict" where
  "copy_param params key target data =
     (case map_of params key of None \<Rightarrow> data | Some v \<Rightarrow> dict_set data target v)"

definition copy_params :: "pydict \<Rightarrow> pydict \<Rightarrow> pydict" where
  "copy_params params data =
     (let data = foldl (\<lambda>d key. copy_param params key key d) data param_keys;
          data = copy_param params ''ip_from'' ''from'' data;
          data = copy_param params ''ip_to'' ''to'' data
      in data)"

definition resolve_domains :: "'s foreman \<Rightarrow> pydict \<Rightarrow> pydict \<Rightarrow> ('s, pydict) run" where
  "resolve_domains c params data =
     (case map_of params ''domains'' of
        None \<Rightarrow> ret data
      | Some v \<Rightarrow>
          (if truthy v
           then bind (get_resources c ''domains'' v) (\<lambda>rs.
                  ret (dict_set data ''domains'' (PList (map PDict rs))))
           else ret data))"

definition proxy_types :: "string list" where
  "proxy_types = [''dns'', ''dhcp'', ''tftp'', ''discovery'']"

primrec resolve_proxies ::
  "'s foreman \<Rightarrow> pydict \<Rightarrow> string list \<Rightarrow> pydict \<Rightarrow> ('s, pydict) run" where
  "resolve_proxies c params [] data = ret data"
| "resolve_proxies c params (proxy_type # rest) data =
     (let key = proxy_type @ ''_proxy''; id_key = proxy_type @ ''_id'' in
      case map_of params key of
        None \<Rightarrow> resolve_proxies c params rest data
      | Some v \<Rightarrow>
          (if truthy v
           then bind (get_resources c ''smart_proxies'' (PList [v])) (\<lambda>rs.
                  case rs of
                    [] \<Rightarrow> raise (Uncaught IndexError)
                  | r # _ \<Rightarrow> resolve_proxies c params rest (dict_set data id_key (dict_get r ''id'')))
           else resolve_proxies c params rest (dict_set data id_key PNone)))"

definition prepare_data :: "'s foreman \<Rightarrow> pydict \<Rightarrow> pydict \<Rightarrow> ('s, pydict) run" where
  "prepare_data c params data =
     bind (resolve_domains c params (copy_params params data)) (\<lambda>data.
       resolve_proxies c params proxy_types data)"

section \<open>Reconciling\<close>

text \<open>
  \<open>ensure\<close> (lines 239 to 286), in its three parts. First (lines 249 to 254) the subnet
  is searched by name and, when the search finds one, fetched by its id; a
  \<open>ForemanError\<close> from either call ends the run.
\<close>

definition fetch_subnet :: "'s foreman \<Rightarrow> pydict \<Rightarrow> ('s, pydict option) run" where
  "fetch_subnet c data =
     bind (do_search_subnet c data) (\<lambda>r.
       case r of
         Inl msg \<Rightarrow> fail_json (CouldNotGetSubnet msg)
       | Inr subnet \<Rightarrow>
           (if found subnet
            then bind (do_get_subnet c (record_id subnet)) (\<lambda>r.
                   case r of
                     Inl msg \<Rightarrow> fail_json (CouldNotGetSubnet msg)
                   | Inr subnet \<Rightarrow> ret subnet)
            else ret subnet))"

text \<open>
  Then (lines 256 to 262) the references are resolved: organizations, locations, and
  \<open>prepare_data\<close>, which resolves the domains and the four proxies.
\<close>

definition resolve_references ::
  "'s foreman \<Rightarrow> pydict \<Rightarrow> pyval \<Rightarrow> pyval \<Rightarrow> pydict \<Rightarrow> ('s, pydict) run" where
  "resolve_references c params organizations locations data =
     bind (if truthy organizations
           then bind (get_organization_ids c organizations) (\<lambda>ids.
                  ret (dict_set data ''organization_ids'' ids))
           else ret data) (\<lambda>data.
     bind (if truthy locations
           then bind (get_location_ids c locations) (\<lambda>ids.
                  ret (dict_set data ''location_ids'' ids))
           else ret data) (\<lambda>data.
     prepare_data c params data))"

text \<open>
  Last (lines 264 to 286) the decision: create when there is no subnet and the state is
  \<open>present\<close>; with a subnet, delete when the state is \<open>absent\<close>, update when
  \<open>subnets_equal\<close> is false; otherwise return \<open>(False, subnet)\<close>. Each of the three
  calls returns from \<open>ensure\<close> or ends the run with \<open>fail_json\<close>.
\<close>

definition apply_change ::
  "foreman_utils \<Rightarrow> 's foreman \<Rightarrow> pyval \<Rightarrow> pydict option \<Rightarrow> pydict \<Rightarrow>
     ('s, bool \<times> pydict option) run" where
  "apply_change u c state subnet data =
     (if \<not> found subnet \<and> py_eq state (PStr ''present'')
      then bind (do_create_subnet c data) (\<lambda>r.
             case r of
               Inl msg \<Rightarrow> fail_json (CouldNotCreateSubnet msg)
             | Inr subnet \<Rightarrow> ret (True, subnet))
      else (case subnet of
              None \<Rightarrow> ret (False, subnet)
            | Some rec \<Rightarrow>
                (if rec = [] then ret (False, subnet)
                 else if py_eq state (PStr ''absent'')
                 then bind (do_delete_subnet c (dict_get rec ''id'')) (\<lambda>r.
                        case r of
                          Inl msg \<Rightarrow> fail_json (CouldNotDeleteSubnet msg)
                        | Inr subnet \<Rightarrow> ret (True, subnet))
                 else bind (lift (subnets_equal u data rec)) (\<lambda>eq.
                        if \<not> eq
                        then bind (do_update_subnet c (dict_get rec ''id'') data) (\<lambda>r.
                               case r of
                                 Inl msg \<Rightarrow> fail_json (CouldNotUpdateSubnet msg)
                               | Inr subnet \<Rightarrow> ret (True, subnet))
                        else ret (False, subnet)))))"

definition ensure ::
  "foreman_utils \<Rightarrow> 's foreman \<Rightarrow> pydict \<Rightarrow> ('s, bool \<times> pydict option) run" where
  "ensure u c params =
     bind (lift (dict_index params ''name'')) (\<lambda>name.
     bind (lift (dict_index params ''state'')) (\<lambda>state.
     bind (lift (dict_index params ''locations'')) (\<lambda>locations.
     bind (lift (dict_index params ''organizations'')) (\<lambda>organizations.
     bind (fetch_subnet c [(''name'', name)]) (\<lambda>subnet.
     bind (resolve_references c params organizations locations [(''name'', name)]) (\<lambda>data.
     apply_change u c state subnet data))))))"

text \<open>The parts of what a run leaves: its value, the remote state, the calls.\<close>

definition outcome :: "(failure + 'a) \<times> 's \<times> call list \<Rightarrow> failure + 'a" where
  "outcome x = fst x"

definition remote :: "(failure + 'a) \<times> 's \<times> call list \<Rightarrow> 's" where
  "remote x = fst (snd x)"

definition calls :: "(failure + 'a) \<times> 's \<times> call list \<Rightarrow> call list" where
  "calls x = snd (snd x)"

section \<open>An in-memory remote\<close>

text \<open>
  A stand-in for the remote system, for running the module on concrete inputs: it keeps
  the subnets it was given, each with the id it assigned, and a table of the other
  resources by type; searching is by name.
\<close>

record store =
  subnets :: "pydict list"
  resources :: "(string \<times> pydict) list"
  next_id :: int

definition same_name :: "pydict \<Rightarrow> pydict \<Rightarrow> bool" where
  "same_name q r = py_eq (dict_get q ''name'') (dict_get r ''name'')"

definition has_id :: "pyval \<Rightarrow> pydict \<Rightarrow> bool" where
  "has_id i r = py_eq (dict_get r ''id'') i"

definition mem_client :: "store foreman" where
  "mem_client =
     \<lparr> search_resource = (\<lambda>rt q s.
         Inr (find (same_name q) (map snd (filter (\<lambda>tr. fst tr = rt) (resources s))))),
       search_subnet = (\<lambda>q s. Inr (find (same_name q) (subnets s))),
       get_subnet = (\<lambda>i s.
         case find (has_id i) (subnets s) of
           None \<Rightarrow> Inl ''Resource subnet not found''
         | Some r \<Rightarrow> Inr (Some r)),
       create_subnet = (\<lambda>d s.
         let r = dict_set d ''id'' (PInt (next_id s))
         in (Inr (Some r), s\<lparr>subnets := subnets s @ [r], next_id := next_id s + 1\<rparr>)),
       update_subnet = (\<lambda>i d s.
         case find (has_id i) (subnets s) of
           None \<Rightarrow> (Inl ''Resource subnet not found'', s)
         | Some r \<Rightarrow>
             (let r' = foldl (\<lambda>acc kv. dict_set acc (fst kv) (snd kv)) r d
              in (Inr (Some r'),
                  s\<lparr>subnets := map (\<lambda>x. if has_id i x then r' else x) (subnets s)\<rparr>))),
       delete_subnet = (\<lambda>i s.
         case find (has_id i) (subnets s) of
           None \<Rightarrow> (Inl ''Resource subnet not found'', s)
         | Some r \<Rightarrow> (Inr (Some r), s\<lparr>subnets := filter (\<lambda>x. \<not> has_id i x) (subnets s)\<rparr>)) \<rparr>"

text \<open>Helpers that find the organizations and the locations equal.\<close>

definition lenient_utils :: foreman_utils where
  "lenient_utils =
     \<lparr> organizations_equal = (\<lambda>data subnet. Inr True),
       locations_equal = (\<lambda>data subnet. Inr True) \<rparr>"

section \<open>Predicates and example inputs for the properties\<close>

text \<open>
  A call is a lookup that found nothing when it searches a resource and the client, in
  the remote state \<open>s\<close>, returns \<open>None\<close> or an empty record.
\<close>

definition not_found_call :: "'s foreman \<Rightarrow> 's \<Rightarrow> call \<Rightarrow> bool" where
  "not_found_call c s x =
     (case x of
        SearchResource rt d \<Rightarrow>
          (case search_resource c rt d s of Inl msg \<Rightarrow> False | Inr res \<Rightarrow> \<not> found res)
      | _ \<Rightarrow> False)"

text \<open>
  What the part of a run that resolves references leaves behind: the remote state as it
  was, only lookups in the log, and every lookup but possibly the last one found its
  resource. A value is returned only when all of them did; when the last lookup found
  nothing, the failure is the message "Could not find resource type ... defined as ..."
  for the resource type and the item of that lookup.
\<close>

definition lookup_outcome ::
  "'s foreman \<Rightarrow> 's \<Rightarrow> (failure + 'a) \<times> 's \<times> call list \<Rightarrow> bool" where
  "lookup_outcome c s x =
     (case x of (r, s', cs) \<Rightarrow>
        s' = s \<and> list_all is_lookup cs \<and>
        (case r of
           Inr x \<Rightarrow> list_all (\<lambda>x. \<not> not_found_call c s x) cs
         | Inl e \<Rightarrow>
             list_all (\<lambda>x. \<not> not_found_call c s x) (butlast cs) \<and>
             (cs \<noteq> [] \<and> not_found_call c s (last cs) \<longrightarrow>
                (\<exists>rt item. last cs = SearchResource rt (search_data item)
                   \<and> e = FailJson (CouldNotFindResource rt item)))))"

text \<open>
  A computation that resolves references: it behaves so from every remote state.
\<close>

definition lookup_run :: "'s foreman \<Rightarrow> ('s, 'a) run \<Rightarrow> bool" where
  "lookup_run c m = (\<forall>s. lookup_outcome c s (m s))"

text \<open>
  A small example: the subnet \<open>MySubnet\<close> with its network and netmask, one domain
  and a DNS proxy. The parameters are as the host hands them over (what the caller
  leaves out is \<open>None\<close>), for a given state.
\<close>

definition example_params :: "string \<Rightarrow> pydict" where
  "example_params state =
     [(''name'', PStr ''MySubnet''), (''network'', PStr ''192.168.123.0''),
      (''mask'', PStr ''255.255.255.0''), (''gateway'', PNone), (''dns_primary'', PNone),
      (''dns_secondary'', PNone), (''domains'', PList [PStr ''example.com'']),
      (''ipam'', PNone), (''boot_mode'', PStr ''DHCP''), (''ip_from'', PNone),
      (''ip_to'', PNone), (''dhcp_proxy'', PNone), (''dns_proxy'', PStr ''proxy1''),
      (''discovery_proxy'', PNone), (''tftp_proxy'', PNone), (''vlanid'', PNone),
      (''locations'', PNone), (''organizations'', PNone), (''state'', PStr state)]"

text \<open>
  The remote knows one domain and one smart proxy.
\<close>

definition example_resources :: "(string \<times> pydict) list" where
  "example_resources =
     [(''domains'', [(''id'', PInt 7), (''name'', PStr ''example.com'')]),
      (''smart_proxies'', [(''id'', PInt 3), (''name'', PStr ''proxy1'')])]"

text \<open>
  The in-memory remote holding the given subnets.
\<close>

definition example_store :: "pydict list \<Rightarrow> store" where
  "example_store recs =
     \<lparr> subnets = recs, resources = example_resources, next_id = 1 + int (length recs) \<rparr>"

text \<open>
  The request data that \<open>ensure\<close> prepares from the example parameters, and the lookups
  it issues on the way.
\<close>

definition example_data :: pydict where
  "example_data =
     [(''name'', PStr ''MySubnet''), (''dns_primary'', PNone), (''dns_secondary'', PNone),
      (''gateway'', PNone), (''ipam'', PNone), (''boot_mode'', PStr ''DHCP''),
      (''mask'', PStr ''255.255.255.0''), (''network'', PStr ''192.168.123.0''),
      (''vlanid'', PNone),
      (''domains'', PList [PDict [(''id'', PInt 7), (''name'', PStr ''example.com'')]]),
      (''from'', PNone), (''to'', PNone), (''dns_id'', PInt 3), (''dhcp_id'', PNone),
      (''tftp_id'', PNone), (''discovery_id'', PNone)]"

definition example_lookups :: "call list" where
  "example_lookups =
     [SearchResource ''domains'' [(''name'', PStr ''example.com'')],
      SearchResource ''smart_proxies'' [(''name'', PStr ''proxy1'')]]"

text \<open>
  The subnet as the in-memory remote stores it, and the same subnet with another netmask.
\<close>

definition example_record :: pydict where
  "example_record = example_data @ [(''id'', PInt 1)]"

definition stale_record :: pydict where
  "stale_record = dict_set example_record ''mask'' (PStr ''255.255.0.0'')"

text \<open>
  A comparison of data with a record reads only the given keys when it cannot tell apart
  two pairs that agree on these keys.
\<close>

definition reads_only :: "string list \<Rightarrow> (pydict \<Rightarrow> pydict \<Rightarrow> 'a) \<Rightarrow> bool" where
  "reads_only keys f =
     (\<forall>data subnet data' subnet'.
        (\<forall>k\<in>set keys. map_of data k = map_of data' k \<and> map_of subnet k = map_of subnet' k)
        \<longrightarrow> f data subnet = f data' subnet')"

text \<open>
  A remote that fills in a default: a subnet stored without an \<open>ipam\<close> mode gets the
  mode \<open>DHCP\<close>.
\<close>

definition with_default_ipam :: "pydict \<Rightarrow> pydict" where
  "with_default_ipam d =
     (if py_eq (dict_get d ''ipam'') PNone then dict_set d ''ipam'' (PStr ''DHCP'') else d)"

definition defaulting_client :: "store foreman" where
  "defaulting_client =
     mem_client
       \<lparr> create_subnet := (\<lambda>d s. create_subnet mem_client (with_default_ipam d) s),
         update_subnet := (\<lambda>i d s. update_subnet mem_client i (with_default_ipam d) s) \<rparr>"

text \<open>
  The example subnet as that remote stores it.
\<close>

definition defaulted_record :: pydict where
  "defaulted_record = dict_set example_record ''ipam'' (PStr ''DHCP'')"

text \<open>
  A remote that knows the domain of the example but not its proxy.
\<close>

definition bare_store :: store where
  "bare_store =
     \<lparr> subnets = [],
       resources = [(''domains'', [(''id'', PInt 7), (''name'', PStr ''example.com'')])],
       next_id = 1 \<rparr>"

text \<open>
  The parameters of a run that names no domains and no proxy: what the caller leaves out
  arrives as \<open>None\<close>.
\<close>

definition plain_params :: pydict where
  "plain_params =
     [(''name'', PStr ''MySubnet''), (''network'', PStr ''192.168.123.0''),
      (''mask'', PStr ''255.255.255.0''), (''gateway'', PNone), (''dns_primary'', PNone),
      (''dns_secondary'', PNone), (''domains'', PNone),
      (''ipam'', PNone), (''boot_mode'', PStr ''DHCP''), (''ip_from'', PNone),
      (''ip_to'', PNone), (''dhcp_proxy'', PNone), (''dns_proxy'', PNone),
      (''discovery_proxy'', PNone), (''tftp_proxy'', PNone), (''vlanid'', PNone),
      (''locations'', PNone), (''organizations'', PNone), (''state'', PStr ''present'')]"

definition plain_data :: pydict where
  "plain_data =
     [(''name'', PStr ''MySubnet''), (''dns_primary'', PNone), (''dns_secondary'', PNone),
      (''gateway'', PNone), (''ipam'', PNone), (''boot_mode'', PStr ''DHCP''),
      (''mask'', PStr ''255.255.255.0''), (''network'', PStr ''192.168.123.0''),
      (''vlanid'', PNone), (''domains'', PNone),
      (''from'', PNone), (''to'', PNone), (''dns_id'', PNone), (''dhcp_id'', PNone),
      (''tftp_id'', PNone), (''discovery_id'', PNone)]"

definition plain_record :: pydict where
  "plain_record = plain_data @ [(''id'', PInt 1)]"

text \<open>
  The remote holds the subnet as sent: searching the subnet by the name of the parameters
  and getting it by its id gives a record that agrees with the data on each of the fifteen
  compared fields, carries the domains entry of the data, a list of named entries, and is
  found equal by the two helpers of the utility library.
\<close>

definition held_as_sent :: "foreman_utils \<Rightarrow> 's foreman \<Rightarrow> pydict \<Rightarrow> pydict \<Rightarrow> 's \<Rightarrow> bool" where
  "held_as_sent u c params data s =
     (case map_of params ''name'' of
        None \<Rightarrow> False
      | Some name \<Rightarrow>
          (case search_subnet c [(''name'', name)] s of
             Inl msg \<Rightarrow> False
           | Inr None \<Rightarrow> False
           | Inr (Some hit) \<Rightarrow>
               hit \<noteq> [] \<and>
               (case get_subnet c (dict_get hit ''id'') s of
                  Inl msg \<Rightarrow> False
                | Inr None \<Rightarrow> False
                | Inr (Some rec) \<Rightarrow>
                    rec \<noteq> []
                    \<and> list_all (\<lambda>key. py_eq (dict_get data key) (dict_get rec key))
                        [''name'', ''dns_primary'', ''dns_secondary'', ''gateway'', ''ipam'',
                         ''boot_mode'', ''mask'', ''network'', ''vlanid'', ''from'', ''to'',
                         ''tftp_id'', ''dns_id'', ''dhcp_id'', ''discovery_id'']
                    \<and> map_of rec ''domains'' = map_of data ''domains''
                    \<and> (case domain_names rec of Inl e \<Rightarrow> False | Inr names \<Rightarrow> True)
                    \<and> organizations_equal u data rec = Inr True
                    \<and> locations_equal u data rec = Inr True)))"

text \<open>The remote no longer holds a subnet of that name.\<close>

definition gone :: "'s foreman \<Rightarrow> pydict \<Rightarrow> 's \<Rightarrow> bool" where
  "gone c params s =
     (case map_of params ''name'' of
        None \<Rightarrow> False
      | Some name \<Rightarrow>
          (case search_subnet c [(''name'', name)] s of
             Inl msg \<Rightarrow> False
           | Inr subnet \<Rightarrow> \<not> found subnet))"

text \<open>
  A call of a run has taken effect in the remote state \<open>s\<close>: what a create or an update
  sent is held as sent, what a delete removed is gone. Reads ask nothing of \<open>s\<close>.
\<close>

definition settled :: "foreman_utils \<Rightarrow> 's foreman \<Rightarrow> pydict \<Rightarrow> 's \<Rightarrow> call \<Rightarrow> bool" where
  "settled u c params s w =
     (case w of
        CreateSubnet data \<Rightarrow> held_as_sent u c params data s
      | UpdateSubnet i data \<Rightarrow> held_as_sent u c params data s
      | DeleteSubnet i \<Rightarrow> gone c params s
      | _ \<Rightarrow> True)"

text \<open>
  A computation does the same from two remote states: it leaves the first as it is, and
  from the second it gives the same value and the same calls and leaves it as it is.
\<close>

definition same_at :: "'s \<Rightarrow> 's \<Rightarrow> ('s, 'a) run \<Rightarrow> bool" where
  "same_at s s' m = (case m s of (r, t, cs) \<Rightarrow> t = s \<and> m s' = (r, s', cs))"

text \<open>
  Modelled from the spec: \<open>organizations_equal\<close> and \<open>locations_equal\<close> belong to the
  utility library \<open>foreman_utils\<close>, which is not among the sources. The spec, 4.1 step 4:
  the association fields are compared by extracting each referenced entity's name,
  sorting, and comparing the sequences for exact equality (order-independent, duplicates
  significant). Two sorted sequences are equal when they have the same length and every
  name occurs as often in the one as in the other.
\<close>

definition same_names :: "pyval list \<Rightarrow> pyval list \<Rightarrow> bool" where
  "same_names xs ys =
     (length xs = length ys \<and> list_all (\<lambda>x. count_list xs x = count_list ys x) xs)"

definition association_names :: "string \<Rightarrow> pydict \<Rightarrow> failure + pyval list" where
  "association_names key rec =
     (case dict_index rec key of
        Inl e \<Rightarrow> Inl e
      | Inr v \<Rightarrow>
          (case py_iter v of
             Inl e \<Rightarrow> Inl e
           | Inr items \<Rightarrow> map_raise (\<lambda>d. subscript d ''name'') items))"

definition names_equal :: "string \<Rightarrow> pydict \<Rightarrow> pydict \<Rightarrow> failure + bool" where
  "names_equal key data subnet =
     (case association_names key data of
        Inl e \<Rightarrow> Inl e
      | Inr dn \<Rightarrow>
          (case association_names key subnet of
             Inl e \<Rightarrow> Inl e
           | Inr sn \<Rightarrow> Inr (same_names dn sn)))"

definition spec_utils :: foreman_utils where
  "spec_utils =
     \<lparr> organizations_equal = names_equal ''organizations'',
       locations_equal = names_equal ''locations'' \<rparr>"

text \<open>
  The example data and the example record with two organizations, in different orders,
  and a location.
\<close>

definition assigned_data :: pydict where
  "assigned_data =
     example_data @
     [(''organizations'',
       PList [PDict [(''id'', PInt 1), (''name'', PStr ''Dalek Inc'')],
              PDict [(''id'', PInt 2), (''name'', PStr ''Cybermen'')]]),
      (''locations'', PList [PDict [(''id'', PInt 5), (''name'', PStr ''Tardis'')]])]"

definition assigned_record :: pydict where
  "assigned_record =
     example_record @
     [(''organizations'',
       PList [PDict [(''id'', PInt 2), (''name'', PStr ''Cybermen'')],
              PDict [(''id'', PInt 1), (''name'', PStr ''Dalek Inc'')]]),
      (''locations'', PList [PDict [(''id'', PInt 5), (''name'', PStr ''Tardis'')]])]"

section \<open>Properties of the parts of a run\<close>

lemma lookup_run_ret: "lookup_run c (ret x)"
  by (simp add: lookup_run_def lookup_outcome_def ret_def)

lemma lookup_run_raise: "lookup_run c (raise e)"
  by (simp add: lookup_run_def lookup_outcome_def raise_def)

lemma lookup_run_fail_json: "lookup_run c (fail_json m)"
  by (simp add: fail_json_def lookup_run_raise)

lemma lookup_run_lift: "lookup_run c (lift r)"
  by (simp add: lookup_run_def lookup_outcome_def lift_def split: sum.splits)

lemma list_all_butlast: "list_all P xs \<Longrightarrow> list_all P (butlast xs)"
  by (auto simp: list_all_iff dest: in_set_butlastD)

lemma lookup_outcome_bind:
  assumes m: "lookup_outcome c s (m s)" and f: "\<And>x. lookup_outcome c s (f x s)"
  shows "lookup_outcome c s (bind m f s)"
proof -
  obtain r1 s1 cs1 where ms: "m s = (r1, s1, cs1)" by (cases "m s") auto
  from m ms have s1: "s1 = s" and l1: "list_all is_lookup cs1"
    by (auto simp: lookup_outcome_def)
  show ?thesis
  proof (cases r1)
    case (Inl e)
    with m ms show ?thesis
      by (auto simp: lookup_outcome_def bind_def)
  next
    case (Inr x)
    with m ms have n1: "list_all (\<lambda>x. \<not> not_found_call c s x) cs1"
      by (auto simp: lookup_outcome_def)
    obtain r2 s2 cs2 where fs: "f x s = (r2, s2, cs2)" by (cases "f x s") auto
    from f [of x] fs have s2: "s2 = s" and l2: "list_all is_lookup cs2"
      by (auto simp: lookup_outcome_def)
    have eq: "bind m f s = (r2, s, cs1 @ cs2)"
      using ms fs Inr s1 s2 by (simp add: bind_def)
    show ?thesis
    proof (cases r2)
      case (Inr y)
      with f [of x] fs have "list_all (\<lambda>x. \<not> not_found_call c s x) cs2"
        by (auto simp: lookup_outcome_def)
      with n1 l1 l2 eq Inr show ?thesis by (simp add: lookup_outcome_def)
    next
      case (Inl e)
      with f [of x] fs have b2: "list_all (\<lambda>x. \<not> not_found_call c s x) (butlast cs2)"
        and e2: "cs2 \<noteq> [] \<and> not_found_call c s (last cs2) \<longrightarrow>
              (\<exists>rt item. last cs2 = SearchResource rt (search_data item)
                 \<and> e = FailJson (CouldNotFindResource rt item))"
        by (auto simp: lookup_outcome_def)
      show ?thesis
      proof (cases "cs2 = []")
        case True
        with n1 l1 eq Inl show ?thesis
          by (auto simp: lookup_outcome_def list_all_iff dest: in_set_butlastD)
      next
        case False
        with n1 l1 l2 b2 e2 eq Inl show ?thesis
          by (simp add: lookup_outcome_def butlast_append)
      qed
    qed
  qed
qed

lemma lookup_run_bind:
  "lookup_run c m \<Longrightarrow> (\<And>x. lookup_run c (f x)) \<Longrightarrow> lookup_run c (bind m f)"
  unfolding lookup_run_def by (blast intro: lookup_outcome_bind)

lemma lookup_outcome_search_step:
  assumes k: "\<And>d. lookup_outcome c s (k d s)"
  shows "lookup_outcome c s (bind (do_search_resource c rt (search_data item)) (\<lambda>r.
       case r of
         Inl error \<Rightarrow> fail_json (CouldNotSearchResource rt item error)
       | Inr resource \<Rightarrow>
           (case resource of
              None \<Rightarrow> fail_json (CouldNotFindResource rt item)
            | Some d \<Rightarrow>
                (if d = [] then fail_json (CouldNotFindResource rt item)
                 else k d))) s)"
proof (cases "search_resource c rt (search_data item) s")
  case (Inl msg)
  then show ?thesis
    by (simp add: lookup_outcome_def bind_def do_search_resource_def fail_json_def raise_def
        not_found_call_def)
next
  case (Inr res)
  show ?thesis
  proof (cases "found res")
    case False
    with Inr show ?thesis
      by (auto simp: lookup_outcome_def bind_def do_search_resource_def fail_json_def raise_def
          not_found_call_def found_def split: option.splits)
  next
    case True
    then obtain d where d: "res = Some d" "d \<noteq> []"
      by (auto simp: found_def split: option.splits)
    obtain r2 s2 cs2 where ks: "k d s = (r2, s2, cs2)" by (cases "k d s") auto
    have nf: "\<not> not_found_call c s (SearchResource rt (search_data item))"
      using Inr True by (simp add: not_found_call_def)
    from k [of d] ks nf Inr d show ?thesis
      by (auto simp: lookup_outcome_def bind_def do_search_resource_def butlast_append
          split: sum.splits)
  qed
qed

lemma lookup_run_get_resources_loop: "lookup_run c (get_resources_loop c rt items result)"
proof (induction items arbitrary: result)
  case Nil
  show ?case by (simp add: lookup_run_ret)
next
  case (Cons item rest)
  show ?case
    unfolding get_resources_loop.simps lookup_run_def
  proof
    fix s
    show "lookup_outcome c s
          (bind (do_search_resource c rt (search_data item))
            (\<lambda>r. case r of Inl error \<Rightarrow> fail_json (CouldNotSearchResource rt item error)
                  | Inr None \<Rightarrow> fail_json (CouldNotFindResource rt item)
                  | Inr (Some d) \<Rightarrow>
                      if d = [] then fail_json (CouldNotFindResource rt item)
                      else get_resources_loop c rt rest (result @ [d]))
            s)"
      using Cons.IH by (intro lookup_outcome_search_step) (simp add: lookup_run_def)
  qed
qed

lemma lookup_run_get_resources: "lookup_run c (get_resources c rt specs)"
  unfolding get_resources_def
  by (intro lookup_run_bind lookup_run_lift lookup_run_get_resources_loop)

lemma lookup_run_get_resource_ids: "lookup_run c (get_resource_ids c rt specs)"
  unfolding get_resource_ids_def
  by (intro lookup_run_bind lookup_run_get_resources lookup_run_ret)

lemma lookup_run_resolve_domains: "lookup_run c (resolve_domains c params data)"
  unfolding resolve_domains_def
  by (auto split: option.splits intro!: lookup_run_bind lookup_run_get_resources lookup_run_ret)

lemma lookup_run_resolve_proxies: "lookup_run c (resolve_proxies c params pts data)"
proof (induction pts arbitrary: data)
  case Nil
  show ?case by (simp add: lookup_run_ret)
next
  case (Cons pt rest)
  show ?case
    by (auto simp: Let_def split: option.splits list.splits
        intro!: lookup_run_bind lookup_run_get_resources lookup_run_raise Cons.IH)
qed

lemma lookup_run_prepare_data: "lookup_run c (prepare_data c params data)"
  unfolding prepare_data_def
  by (intro lookup_run_bind lookup_run_resolve_domains lookup_run_resolve_proxies)

lemma lookup_run_resolve_references:
  "lookup_run c (resolve_references c params organizations locations data)"
  unfolding resolve_references_def get_organization_ids_def get_location_ids_def
  by (auto intro!: lookup_run_bind lookup_run_get_resource_ids lookup_run_ret
      lookup_run_prepare_data)

lemma fetch_subnet_search_failed:
  "search_subnet c d s = Inl msg \<Longrightarrow>
   fetch_subnet c d s = (Inl (FailJson (CouldNotGetSubnet msg)), s, [SearchSubnet d])"
  by (simp add: fetch_subnet_def bind_def do_search_subnet_def fail_json_def raise_def)

lemma fetch_subnet_none:
  "search_subnet c d s = Inr sub \<Longrightarrow> \<not> found sub \<Longrightarrow>
   fetch_subnet c d s = (Inr sub, s, [SearchSubnet d])"
  by (simp add: fetch_subnet_def bind_def do_search_subnet_def ret_def)

lemma fetch_subnet_found:
  "search_subnet c d s = Inr sub \<Longrightarrow> found sub \<Longrightarrow>
   fetch_subnet c d s =
     (case get_subnet c (record_id sub) s of
        Inl msg \<Rightarrow> Inl (FailJson (CouldNotGetSubnet msg))
      | Inr full \<Rightarrow> Inr full,
      s, [SearchSubnet d, GetSubnet (record_id sub)])"
  by (simp add: fetch_subnet_def bind_def do_search_subnet_def do_get_subnet_def ret_def
      fail_json_def raise_def split: sum.splits)

lemma fetch_subnet_shape:
  assumes "fetch_subnet c d s = (r, s', cs)"
  shows "s' = s \<and> (cs = [SearchSubnet d] \<or> (\<exists>i. cs = [SearchSubnet d, GetSubnet i]))"
proof (cases "search_subnet c d s")
  case (Inl msg)
  with assms show ?thesis by (simp add: fetch_subnet_search_failed)
next
  case (Inr sub)
  with assms show ?thesis
    by (cases "found sub") (auto simp: fetch_subnet_none fetch_subnet_found)
qed

lemma apply_change_shape:
  assumes "apply_change u c state subnet data s = (r, s', cs)"
  shows "(cs = [] \<and> s' = s \<and> (\<forall>res. r = Inr res \<longrightarrow> \<not> fst res))
       \<or> ((\<exists>w. cs = [w] \<and> is_mutating w) \<and> (\<forall>res. r = Inr res \<longrightarrow> fst res))"
  using assms
  by (auto simp: apply_change_def bind_def ret_def lift_def fail_json_def raise_def
      do_create_subnet_def do_delete_subnet_def do_update_subnet_def
      split: if_splits option.splits sum.splits prod.splits)

lemma resolve_references_shape:
  assumes "resolve_references c params organizations locations data s = (r, s', cs)"
  shows "s' = s \<and> list_all is_lookup cs"
  using lookup_run_resolve_references [of c params organizations locations data] assms
  by (auto simp: lookup_run_def lookup_outcome_def dest!: spec [of _ s])

lemma ensure_phases:
  assumes "ensure u c params s = (r, s', cs)"
  obtains
    (key_error) k where "r = Inl (Uncaught (KeyError k))" "s' = s" "cs = []"
  | (fetch_failed) name e rcs where
      "map_of params ''name'' = Some name"
      "fetch_subnet c [(''name'', name)] s = (Inl e, s, rcs)"
      "r = Inl e" "s' = s" "cs = rcs"
  | (resolve_failed) name state locations organizations subnet rcs e lcs where
      "map_of params ''name'' = Some name" "map_of params ''state'' = Some state"
      "map_of params ''locations'' = Some locations"
      "map_of params ''organizations'' = Some organizations"
      "fetch_subnet c [(''name'', name)] s = (Inr subnet, s, rcs)"
      "resolve_references c params organizations locations [(''name'', name)] s = (Inl e, s, lcs)"
      "r = Inl e" "s' = s" "cs = rcs @ lcs"
  | (decided) name state locations organizations subnet rcs data lcs wcs where
      "map_of params ''name'' = Some name" "map_of params ''state'' = Some state"
      "map_of params ''locations'' = Some locations"
      "map_of params ''organizations'' = Some organizations"
      "fetch_subnet c [(''name'', name)] s = (Inr subnet, s, rcs)"
      "resolve_references c params organizations locations [(''name'', name)] s = (Inr data, s, lcs)"
      "apply_change u c state subnet data s = (r, s', wcs)"
      "cs = rcs @ lcs @ wcs"
proof -
  show ?thesis
  proof (cases "\<exists>name state locations organizations.
      map_of params ''name'' = Some name \<and> map_of params ''state'' = Some state \<and>
      map_of params ''locations'' = Some locations \<and>
      map_of params ''organizations'' = Some organizations")
    case False
    have "\<exists>k. ensure u c params s = (Inl (Uncaught (KeyError k)), s, [])"
    proof (cases "map_of params ''name''")
      case None
      then show ?thesis by (simp add: ensure_def bind_def lift_def dict_index_def)
    next
      case n: (Some name)
      show ?thesis
      proof (cases "map_of params ''state''")
        case None
        with n show ?thesis by (simp add: ensure_def bind_def lift_def dict_index_def)
      next
        case st: (Some state)
        show ?thesis
        proof (cases "map_of params ''locations''")
          case None
          with n st show ?thesis by (simp add: ensure_def bind_def lift_def dict_index_def)
        next
          case l: (Some locations)
          with n st False have "map_of params ''organizations'' = None" by auto
          with n st l show ?thesis by (simp add: ensure_def bind_def lift_def dict_index_def)
        qed
      qed
    qed
    then obtain k where "ensure u c params s = (Inl (Uncaught (KeyError k)), s, [])" ..
    with assms show ?thesis by (intro key_error [of k]) simp_all
  next
    case True
    then obtain name state locations organizations where present:
      "map_of params ''name'' = Some name" "map_of params ''state'' = Some state"
      "map_of params ''locations'' = Some locations"
      "map_of params ''organizations'' = Some organizations"
      by blast
    have e: "ensure u c params s =
        bind (fetch_subnet c [(''name'', name)]) (\<lambda>subnet.
        bind (resolve_references c params organizations locations [(''name'', name)])
          (\<lambda>data. apply_change u c state subnet data)) s"
      using present by (simp add: ensure_def bind_def lift_def dict_index_def)
    obtain fr fs rcs where f: "fetch_subnet c [(''name'', name)] s = (fr, fs, rcs)"
      by (cases "fetch_subnet c [(''name'', name)] s") auto
    have fs: "fs = s" using fetch_subnet_shape [OF f] by simp
    show ?thesis
    proof (cases fr)
      case (Inl e1)
      have "ensure u c params s = (Inl e1, s, rcs)"
        unfolding e using f fs Inl by (simp add: bind_def)
      with assms f fs Inl present show ?thesis
        by (intro fetch_failed [of name e1 rcs]) simp_all
    next
      case fi: (Inr subnet)
      obtain rr rs lcs where
        rf: "resolve_references c params organizations locations [(''name'', name)] s
               = (rr, rs, lcs)"
        by (cases "resolve_references c params organizations locations [(''name'', name)] s")
          auto
      have rs: "rs = s" using resolve_references_shape [OF rf] by simp
      show ?thesis
      proof (cases rr)
        case (Inl e2)
        have "ensure u c params s = (Inl e2, s, rcs @ lcs)"
          unfolding e using f fs fi rf rs Inl by (simp add: bind_def)
        with assms f fs fi rf rs Inl present show ?thesis
          by (intro resolve_failed [of name state locations organizations subnet rcs e2 lcs])
            simp_all
      next
        case (Inr data)
        obtain ar as wcs where a: "apply_change u c state subnet data s = (ar, as, wcs)"
          by (cases "apply_change u c state subnet data s") auto
        have "ensure u c params s = (ar, as, rcs @ lcs @ wcs)"
          unfolding e using f fs fi rf rs Inr a by (simp add: bind_def)
        with assms f fs fi rf rs Inr a present show ?thesis
          by (intro decided [of name state locations organizations subnet rcs data lcs wcs])
            simp_all
      qed
    qed
  qed
qed

lemma ensure_decided:
  assumes "map_of params ''name'' = Some name" "map_of params ''state'' = Some state"
      "map_of params ''locations'' = Some locations"
      "map_of params ''organizations'' = Some organizations"
      "fetch_subnet c [(''name'', name)] s = (Inr subnet, s1, rcs)"
      "resolve_references c params organizations locations [(''name'', name)] s = (Inr data, s2, lcs)"
      "apply_change u c state subnet data s = (r, s', wcs)"
  shows "ensure u c params s = (r, s', rcs @ lcs @ wcs)"
proof -
  have "s1 = s" using fetch_subnet_shape [OF assms(5)] by simp
  moreover have "s2 = s" using resolve_references_shape [OF assms(6)] by simp
  ultimately show ?thesis
    using assms by (simp add: ensure_def bind_def lift_def dict_index_def)
qed

lemmas run_defs = bind_def ret_def lift_def raise_def fail_json_def
  do_search_resource_def do_search_subnet_def do_get_subnet_def do_create_subnet_def
  do_update_subnet_def do_delete_subnet_def found_def record_id_def

lemma mem_client_simps:
  "search_resource mem_client rt q s =
     Inr (find (same_name q) (map snd (filter (\<lambda>tr. fst tr = rt) (resources s))))"
  "search_subnet mem_client q s = Inr (find (same_name q) (subnets s))"
  by (simp_all add: mem_client_def)

lemma example_resolve:
  assumes "\<And>rt q. search_resource c rt q s = search_resource mem_client rt q (example_store [])"
  shows "resolve_references c (example_params state) PNone PNone
           [(''name'', PStr ''MySubnet'')] s
         = (Inr example_data, s, example_lookups)"
  by (simp add: resolve_references_def prepare_data_def copy_params_def copy_param_def
      param_keys_def example_params_def dict_set_def resolve_domains_def proxy_types_def
      get_resources_def py_iter_def run_defs assms
      search_data_def mem_client_simps example_store_def example_resources_def same_name_def
      dict_get_def example_data_def example_lookups_def)

lemma example_resolve_mem:
  "resolve_references mem_client (example_params state) PNone PNone
           [(''name'', PStr ''MySubnet'')] (example_store recs)
         = (Inr example_data, example_store recs, example_lookups)"
  by (rule example_resolve) (simp add: mem_client_simps example_store_def)

lemma example_params_simps:
  "map_of (example_params state) ''name'' = Some (PStr ''MySubnet'')"
  "map_of (example_params state) ''state'' = Some (PStr state)"
  "map_of (example_params state) ''locations'' = Some PNone"
  "map_of (example_params state) ''organizations'' = Some PNone"
  by (simp_all add: example_params_def)

lemma example_search_empty:
  "search_subnet mem_client [(''name'', PStr ''MySubnet'')] (example_store []) = Inr None"
  by (simp add: mem_client_simps example_store_def)

lemma example_search_record:
  "search_subnet mem_client [(''name'', PStr ''MySubnet'')] (example_store [example_record])
     = Inr (Some example_record)"
  "get_subnet mem_client (PInt 1) (example_store [example_record]) = Inr (Some example_record)"
  "example_record \<noteq> []" "dict_get example_record ''id'' = PInt 1"
  by (simp_all add: mem_client_def example_store_def example_record_def example_data_def
      same_name_def has_id_def dict_get_def)

lemma example_search_stale:
  "search_subnet mem_client [(''name'', PStr ''MySubnet'')] (example_store [stale_record])
     = Inr (Some stale_record)"
  "get_subnet mem_client (PInt 1) (example_store [stale_record]) = Inr (Some stale_record)"
  "stale_record \<noteq> []" "dict_get stale_record ''id'' = PInt 1"
  by (simp_all add: mem_client_def example_store_def example_record_def example_data_def
      stale_record_def dict_set_def same_name_def has_id_def dict_get_def)

lemma example_create:
  "create_subnet mem_client example_data (example_store [])
     = (Inr (Some example_record), example_store [example_record])"
  by (simp add: mem_client_def example_store_def example_record_def example_data_def
      dict_set_def Let_def)

lemma example_delete:
  "delete_subnet mem_client (PInt 1) (example_store [example_record])
     = (Inr (Some example_record), (example_store [])\<lparr>next_id := 2\<rparr>)"
  by (simp add: mem_client_def example_store_def example_record_def example_data_def
      has_id_def dict_get_def)

lemma example_update:
  "update_subnet mem_client (PInt 1) example_data (example_store [stale_record])
     = (Inr (Some example_record), example_store [example_record])"
  by (simp add: mem_client_def example_store_def example_record_def example_data_def
      stale_record_def has_id_def dict_get_def dict_set_def Let_def)

lemma example_equal:
  "subnets_equal lenient_utils example_data example_record = Inr True"
  by (simp add: subnets_equal_def comparable_keys_def domains_equal_def domain_names_def
      dict_index_def py_iter_def subscript_def list_sort_def lenient_utils_def
      example_record_def example_data_def dict_get_def)

lemma example_differ:
  "subnets_equal lenient_utils example_data stale_record = Inr False"
  by (simp add: subnets_equal_def comparable_keys_def stale_record_def dict_set_def
      example_record_def example_data_def dict_get_def)

lemma lookup_not_mutating: "is_lookup x \<Longrightarrow> \<not> is_mutating x"
  by (cases x) simp_all

lemma lookup_not_subnet_read: "is_lookup x \<Longrightarrow> \<not> is_subnet_read x"
  by (cases x) simp_all

lemma mutating_not_subnet_read: "is_mutating x \<Longrightarrow> \<not> is_subnet_read x"
  by (cases x) simp_all

lemma lookups_no_write: "list_all is_lookup cs \<Longrightarrow> filter is_mutating cs = []"
  by (auto simp: filter_empty_conv list_all_iff lookup_not_mutating)

lemma lookups_no_write_ex: "list_all is_lookup cs \<Longrightarrow> \<not> list_ex is_mutating cs"
  by (auto simp: list_ex_iff list_all_iff lookup_not_mutating)

lemma domains_equal_never_false: "domains_equal data subnet \<noteq> Inr False"
  by (simp add: domains_equal_def list_sort_def split: sum.splits)

lemma ensure_present_existing_cells:
  assumes "map_of params ''name'' = Some name"
    and "map_of params ''state'' = Some (PStr ''present'')"
    and "map_of params ''locations'' = Some locations"
    and "map_of params ''organizations'' = Some organizations"
    and "search_subnet c [(''name'', name)] s = Inr (Some hit)" and "hit \<noteq> []"
    and "get_subnet c (dict_get hit ''id'') s = Inr (Some rec)" and "rec \<noteq> []"
    and "resolve_references c params organizations locations [(''name'', name)] s
           = (Inr data, s, lookups)"
    and "subnets_equal u data rec = Inr equal"
    and "update_subnet c (dict_get rec ''id'') data s = (answer, s')"
  shows "ensure u c params s
           = (if equal
              then (Inr (False, Some rec), s,
                    SearchSubnet [(''name'', name)] # GetSubnet (dict_get hit ''id'') # lookups)
              else (case answer of
                      Inl msg \<Rightarrow> Inl (FailJson (CouldNotUpdateSubnet msg))
                    | Inr updated \<Rightarrow> Inr (True, updated),
                    s',
                    SearchSubnet [(''name'', name)] # GetSubnet (dict_get hit ''id'') # lookups
                      @ [UpdateSubnet (dict_get rec ''id'') data]))
         \<and> filter is_mutating (calls (ensure u c params s))
             = (if equal then [] else [UpdateSubnet (dict_get rec ''id'') data])"
proof -
  have f: "fetch_subnet c [(''name'', name)] s
             = (Inr (Some rec), s,
                [SearchSubnet [(''name'', name)], GetSubnet (dict_get hit ''id'')])"
    using assms(5-7) by (simp add: fetch_subnet_found found_def record_id_def)
  have l: "filter is_mutating lookups = []"
    using resolve_references_shape [OF assms(9)] by (simp add: lookups_no_write)
  show ?thesis
  proof (cases equal)
    case True
    have "apply_change u c (PStr ''present'') (Some rec) data s
        = (Inr (False, Some rec), s, [])"
      using assms(8,10) True by (simp add: apply_change_def run_defs)
    from ensure_decided [OF assms(1-4) f assms(9) this] True l show ?thesis
      by (simp add: calls_def)
  next
    case False
    have "apply_change u c (PStr ''present'') (Some rec) data s
        = (case answer of
             Inl msg \<Rightarrow> Inl (FailJson (CouldNotUpdateSubnet msg))
           | Inr updated \<Rightarrow> Inr (True, updated),
           s', [UpdateSubnet (dict_get rec ''id'') data])"
      using assms(8,10,11) False
      by (simp add: apply_change_def run_defs split: sum.splits)
    from ensure_decided [OF assms(1-4) f assms(9) this] False l show ?thesis
      by (simp add: calls_def)
  qed
qed

lemma ensure_calls:
  assumes "ensure u c params s = (r, s', cs)"
  obtains reads lookups writes where
    "cs = reads @ lookups @ writes"
    "list_all is_subnet_read reads" "list_all is_lookup lookups"
    "writes = [] \<or> (\<exists>w. writes = [w] \<and> is_mutating w)"
    "reads = [] \<longrightarrow> cs = []"
    "reads \<noteq> [] \<longrightarrow>
       (\<exists>name. map_of params ''name'' = Some name \<and> hd reads = SearchSubnet [(''name'', name)])"
    "writes = [] \<longrightarrow> s' = s"
  using assms
proof (cases rule: ensure_phases)
  case (key_error k)
  then show ?thesis by (intro that [of "[]" "[]" "[]"]) simp_all
next
  case (fetch_failed name e rcs)
  from fetch_subnet_shape [OF fetch_failed(2)] fetch_failed(1,4,5) show ?thesis
    by (intro that [of rcs "[]" "[]"]) auto
next
  case (resolve_failed name state locations organizations subnet rcs e lcs)
  from fetch_subnet_shape [OF resolve_failed(5)] resolve_references_shape [OF resolve_failed(6)]
    resolve_failed(1,8,9)
  show ?thesis
    by (intro that [of rcs lcs "[]"]) auto
next
  case (decided name state locations organizations subnet rcs data lcs wcs)
  from fetch_subnet_shape [OF decided(5)] resolve_references_shape [OF decided(6)]
    apply_change_shape [OF decided(7)] decided(1,8)
  show ?thesis
    by (intro that [of rcs lcs wcs]) auto
qed

lemma ensure_resolve_failed:
  assumes "map_of params ''name'' = Some name" "map_of params ''state'' = Some state"
      "map_of params ''locations'' = Some locations"
      "map_of params ''organizations'' = Some organizations"
      "fetch_subnet c [(''name'', name)] s = (Inr subnet, s1, rcs)"
      "resolve_references c params organizations locations [(''name'', name)] s = (Inl e, s2, lcs)"
  shows "ensure u c params s = (Inl e, s, rcs @ lcs)"
proof -
  have "s1 = s" using fetch_subnet_shape [OF assms(5)] by simp
  moreover have "s2 = s" using resolve_references_shape [OF assms(6)] by simp
  ultimately show ?thesis
    using assms by (simp add: ensure_def bind_def lift_def dict_index_def)
qed

lemma example_first_run:
  "ensure u mem_client (example_params ''present'') (example_store [])
     = (Inr (True, Some example_record), example_store [example_record],
        [SearchSubnet [(''name'', PStr ''MySubnet'')]] @ example_lookups
          @ [CreateSubnet example_data])"
proof -
  have f: "fetch_subnet mem_client [(''name'', PStr ''MySubnet'')] (example_store [])
      = (Inr None, example_store [], [SearchSubnet [(''name'', PStr ''MySubnet'')]])"
    by (simp add: fetch_subnet_none example_search_empty found_def)
  have a: "apply_change u mem_client (PStr ''present'') None example_data (example_store [])
      = (Inr (True, Some example_record), example_store [example_record],
         [CreateSubnet example_data])"
    by (simp add: apply_change_def run_defs example_create)
  show ?thesis
    by (rule ensure_decided [OF example_params_simps f example_resolve_mem a])
qed

lemma example_fetch_record:
  "fetch_subnet mem_client [(''name'', PStr ''MySubnet'')] (example_store [example_record])
     = (Inr (Some example_record), example_store [example_record],
        [SearchSubnet [(''name'', PStr ''MySubnet'')], GetSubnet (PInt 1)])"
  by (simp add: fetch_subnet_found [OF example_search_record(1)] found_def record_id_def
      example_search_record)

lemma defaulting_client_reads:
  "search_resource defaulting_client = search_resource mem_client"
  "search_subnet defaulting_client = search_subnet mem_client"
  "get_subnet defaulting_client = get_subnet mem_client"
  by (simp_all add: defaulting_client_def)

lemma defaulted_record_simps:
  "defaulted_record \<noteq> []" "dict_get defaulted_record ''id'' = PInt 1"
  "search_subnet mem_client [(''name'', PStr ''MySubnet'')] (example_store [defaulted_record])
     = Inr (Some defaulted_record)"
  "get_subnet mem_client (PInt 1) (example_store [defaulted_record]) = Inr (Some defaulted_record)"
  by (simp_all add: mem_client_def example_store_def example_record_def example_data_def
      defaulted_record_def dict_set_def same_name_def has_id_def dict_get_def)

lemma defaulting_resolve:
  "resolve_references defaulting_client (example_params state) PNone PNone
     [(''name'', PStr ''MySubnet'')] (example_store recs)
   = (Inr example_data, example_store recs, example_lookups)"
  by (rule example_resolve)
    (simp add: defaulting_client_reads mem_client_simps example_store_def)

lemma defaulting_first_run:
  "ensure lenient_utils defaulting_client (example_params ''present'') (example_store [])
     = (Inr (True, Some defaulted_record), example_store [defaulted_record],
        [SearchSubnet [(''name'', PStr ''MySubnet'')]] @ example_lookups
          @ [CreateSubnet example_data])"
proof -
  have f: "fetch_subnet defaulting_client [(''name'', PStr ''MySubnet'')] (example_store [])
      = (Inr None, example_store [], [SearchSubnet [(''name'', PStr ''MySubnet'')]])"
    by (simp add: fetch_subnet_none defaulting_client_reads example_search_empty found_def)
  have c: "create_subnet defaulting_client example_data (example_store [])
      = (Inr (Some defaulted_record), example_store [defaulted_record])"
    by (simp add: defaulting_client_def with_default_ipam_def mem_client_def example_store_def
        example_record_def example_data_def defaulted_record_def dict_set_def dict_get_def
        Let_def)
  have a: "apply_change lenient_utils defaulting_client (PStr ''present'') None example_data
        (example_store [])
      = (Inr (True, Some defaulted_record), example_store [defaulted_record],
         [CreateSubnet example_data])"
    by (simp add: apply_change_def run_defs c)
  show ?thesis
    by (rule ensure_decided [OF example_params_simps f defaulting_resolve a])
qed

lemma defaulting_second_run:
  "ensure lenient_utils defaulting_client (example_params ''present'')
      (example_store [defaulted_record])
     = (Inr (True, Some defaulted_record), example_store [defaulted_record],
        [SearchSubnet [(''name'', PStr ''MySubnet'')], GetSubnet (PInt 1)] @ example_lookups
          @ [UpdateSubnet (PInt 1) example_data])"
proof -
  have s: "search_subnet defaulting_client [(''name'', PStr ''MySubnet'')]
      (example_store [defaulted_record]) = Inr (Some defaulted_record)"
    by (simp add: defaulting_client_reads defaulted_record_simps)
  have f: "fetch_subnet defaulting_client [(''name'', PStr ''MySubnet'')]
        (example_store [defaulted_record])
      = (Inr (Some defaulted_record), example_store [defaulted_record],
         [SearchSubnet [(''name'', PStr ''MySubnet'')], GetSubnet (PInt 1)])"
    by (simp add: fetch_subnet_found [OF s] found_def record_id_def defaulted_record_simps
        defaulting_client_reads)
  have d: "subnets_equal lenient_utils example_data defaulted_record = Inr False"
    by (simp add: subnets_equal_def comparable_keys_def defaulted_record_def dict_set_def
        example_record_def example_data_def dict_get_def)
  have c: "update_subnet defaulting_client (PInt 1) example_data
        (example_store [defaulted_record])
      = (Inr (Some defaulted_record), example_store [defaulted_record])"
    by (simp add: defaulting_client_def with_default_ipam_def mem_client_def example_store_def
        example_record_def example_data_def defaulted_record_def dict_set_def dict_get_def
        has_id_def Let_def)
  have a: "apply_change lenient_utils defaulting_client (PStr ''present'')
        (Some defaulted_record) example_data (example_store [defaulted_record])
      = (Inr (True, Some defaulted_record), example_store [defaulted_record],
         [UpdateSubnet (PInt 1) example_data])"
    by (simp add: apply_change_def run_defs c d defaulted_record_simps)
  show ?thesis
    by (rule ensure_decided [OF example_params_simps f defaulting_resolve a])
qed

lemma last_of_butlast_all:
  assumes "x \<in> set xs" "list_all P (butlast xs)" "\<not> P x"
  shows "xs \<noteq> [] \<and> last xs = x"
proof -
  from assms(1) have ne: "xs \<noteq> []" by auto
  then have "xs = butlast xs @ [last xs]" by simp
  with assms(1) have "x \<in> set (butlast xs) \<or> x = last xs"
    by (metis Un_iff empty_iff insert_iff list.set(1) list.set(2) set_append)
  with assms(2,3) ne show ?thesis by (auto simp: list_all_iff)
qed

lemma resolve_references_outcome:
  "lookup_outcome c s (resolve_references c params organizations locations data s)"
  using lookup_run_resolve_references [of c params organizations locations data]
  by (simp add: lookup_run_def)

lemma bare_run:
  "ensure u mem_client (example_params ''present'') bare_store
     = (Inl (FailJson (CouldNotFindResource ''smart_proxies'' (PStr ''proxy1''))), bare_store,
        [SearchSubnet [(''name'', PStr ''MySubnet'')]]
          @ [SearchResource ''domains'' [(''name'', PStr ''example.com'')],
             SearchResource ''smart_proxies'' [(''name'', PStr ''proxy1'')]])"
proof -
  have f: "fetch_subnet mem_client [(''name'', PStr ''MySubnet'')] bare_store
      = (Inr None, bare_store, [SearchSubnet [(''name'', PStr ''MySubnet'')]])"
    by (simp add: fetch_subnet_none mem_client_simps bare_store_def found_def)
  have r: "resolve_references mem_client (example_params ''present'') PNone PNone
           [(''name'', PStr ''MySubnet'')] bare_store
         = (Inl (FailJson (CouldNotFindResource ''smart_proxies'' (PStr ''proxy1''))),
            bare_store,
            [SearchResource ''domains'' [(''name'', PStr ''example.com'')],
             SearchResource ''smart_proxies'' [(''name'', PStr ''proxy1'')]])"
    by (simp add: resolve_references_def prepare_data_def copy_params_def copy_param_def
      param_keys_def example_params_def dict_set_def resolve_domains_def proxy_types_def
      get_resources_def py_iter_def run_defs
      search_data_def mem_client_simps bare_store_def same_name_def dict_get_def)
  show ?thesis
    by (rule ensure_resolve_failed [OF example_params_simps f r])
qed

lemma domains_equal_reads:
  assumes "map_of data ''domains'' = map_of data' ''domains''"
    and "map_of subnet ''domains'' = map_of subnet' ''domains''"
  shows "domains_equal data subnet = domains_equal data' subnet'"
proof -
  have h: "domain_names data = domain_names data'" "domain_names subnet = domain_names subnet'"
    using assms by (simp_all add: domain_names_def dict_index_def)
  show ?thesis unfolding domains_equal_def h by (rule refl)
qed

lemma reads_onlyD:
  assumes "reads_only keys f"
    and "\<forall>k\<in>set keys. map_of data k = map_of data' k \<and> map_of subnet k = map_of subnet' k"
  shows "f data subnet = f data' subnet'"
  using assms unfolding reads_only_def by blast

lemma comparable_reads:
  fixes data subnet data' subnet' :: pydict
  assumes "\<forall>k\<in>set comparable_keys.
      map_of data k = map_of data' k \<and> map_of subnet k = map_of subnet' k"
  shows "list_all (\<lambda>key. py_eq (dict_get data key) (dict_get subnet key)) comparable_keys
       = list_all (\<lambda>key. py_eq (dict_get data' key) (dict_get subnet' key)) comparable_keys"
  using assms by (auto simp: list_all_iff dict_get_def)

lemma plain_params_simps:
  "map_of plain_params ''name'' = Some (PStr ''MySubnet'')"
  "map_of plain_params ''state'' = Some (PStr ''present'')"
  "map_of plain_params ''locations'' = Some PNone"
  "map_of plain_params ''organizations'' = Some PNone"
  by (simp_all add: plain_params_def)

lemma plain_resolve:
  "resolve_references c plain_params PNone PNone [(''name'', PStr ''MySubnet'')] s
     = (Inr plain_data, s, [])"
  by (simp add: resolve_references_def prepare_data_def copy_params_def copy_param_def
      param_keys_def plain_params_def dict_set_def resolve_domains_def proxy_types_def
      run_defs plain_data_def)

lemma omitted_domains_first_run:
  "ensure u mem_client plain_params (example_store [])
     = (Inr (True, Some plain_record), example_store [plain_record],
        [SearchSubnet [(''name'', PStr ''MySubnet'')], CreateSubnet plain_data])"
proof -
  have f: "fetch_subnet mem_client [(''name'', PStr ''MySubnet'')] (example_store [])
      = (Inr None, example_store [], [SearchSubnet [(''name'', PStr ''MySubnet'')]])"
    by (simp add: fetch_subnet_none example_search_empty found_def)
  have c: "create_subnet mem_client plain_data (example_store [])
     = (Inr (Some plain_record), example_store [plain_record])"
    by (simp add: mem_client_def example_store_def plain_record_def plain_data_def
        dict_set_def Let_def)
  have a: "apply_change u mem_client (PStr ''present'') None plain_data (example_store [])
      = (Inr (True, Some plain_record), example_store [plain_record],
         [CreateSubnet plain_data])"
    by (simp add: apply_change_def run_defs c)
  from ensure_decided [OF plain_params_simps f plain_resolve a] show ?thesis by simp
qed

lemma same_at_ret: "same_at s s' (ret x)"
  by (simp add: same_at_def ret_def)

lemma same_at_raise: "same_at s s' (raise e)"
  by (simp add: same_at_def raise_def)

lemma same_at_fail_json: "same_at s s' (fail_json m)"
  by (simp add: fail_json_def same_at_raise)

lemma same_at_lift: "same_at s s' (lift r)"
  by (simp add: same_at_def lift_def)

lemma same_at_bind:
  assumes m: "same_at s s' m" and f: "\<And>x. same_at s s' (f x)"
  shows "same_at s s' (bind m f)"
proof -
  obtain r cs where ms: "m s = (r, s, cs)" "m s' = (r, s', cs)"
    using m by (cases "m s") (auto simp: same_at_def)
  show ?thesis
  proof (cases r)
    case (Inl e)
    with ms show ?thesis by (simp add: same_at_def bind_def)
  next
    case (Inr x)
    obtain r2 cs2 where fs: "f x s = (r2, s, cs2)" "f x s' = (r2, s', cs2)"
      using f [of x] by (cases "f x s") (auto simp: same_at_def)
    with ms Inr show ?thesis by (simp add: same_at_def bind_def)
  qed
qed

lemma same_at_search:
  assumes "\<forall>rt q. search_resource c rt q s' = search_resource c rt q s"
  shows "same_at s s' (do_search_resource c rt q)"
  using assms by (simp add: same_at_def do_search_resource_def)

lemma same_at_get_resources_loop:
  assumes "\<forall>rt q. search_resource c rt q s' = search_resource c rt q s"
  shows "same_at s s' (get_resources_loop c rt items result)"
proof (induction items arbitrary: result)
  case Nil
  show ?case by (simp add: same_at_ret)
next
  case (Cons item rest)
  show ?case
    unfolding get_resources_loop.simps
    by (intro same_at_bind same_at_search assms)
      (auto split: sum.splits option.splits intro: same_at_fail_json Cons.IH)
qed

lemma same_at_get_resources:
  assumes "\<forall>rt q. search_resource c rt q s' = search_resource c rt q s"
  shows "same_at s s' (get_resources c rt specs)"
  unfolding get_resources_def
  by (intro same_at_bind same_at_lift same_at_get_resources_loop assms)

lemma same_at_resolve_proxies:
  assumes "\<forall>rt q. search_resource c rt q s' = search_resource c rt q s"
  shows "same_at s s' (resolve_proxies c params pts data)"
proof (induction pts arbitrary: data)
  case Nil
  show ?case by (simp add: same_at_ret)
next
  case (Cons pt rest)
  show ?case
    by (auto simp: Let_def split: option.splits list.splits
        intro!: same_at_bind same_at_get_resources same_at_raise Cons.IH assms)
qed

lemma same_at_resolve_references:
  assumes "\<forall>rt q. search_resource c rt q s' = search_resource c rt q s"
  shows "same_at s s' (resolve_references c params organizations locations data)"
  unfolding resolve_references_def get_organization_ids_def get_location_ids_def
    get_resource_ids_def prepare_data_def resolve_domains_def
  by (auto split: option.splits
      intro!: same_at_bind same_at_get_resources same_at_ret same_at_resolve_proxies assms)

lemma py_eq_str: "py_eq v (PStr x) = (v = PStr x)"
  by (cases v) auto

lemma apply_change_cases:
  assumes "apply_change u c state subnet data s = (Inr first, s', wcs)"
  obtains
    (nothing) "wcs = []" "s' = s" "first = (False, subnet)"
  | (created) "wcs = [CreateSubnet data]" "\<not> found subnet" "state = PStr ''present''"
  | (deleted) rec where "subnet = Some rec" "rec \<noteq> []" "state = PStr ''absent''"
      "wcs = [DeleteSubnet (dict_get rec ''id'')]"
  | (updated) rec where "subnet = Some rec" "rec \<noteq> []" "state \<noteq> PStr ''absent''"
      "wcs = [UpdateSubnet (dict_get rec ''id'') data]"
  using assms
  by (auto simp: apply_change_def run_defs py_eq_str
      split: if_splits option.splits sum.splits prod.splits)

lemma held_equal:
  assumes "list_all (\<lambda>key. py_eq (dict_get data key) (dict_get rec key)) comparable_keys"
    and "map_of rec ''domains'' = map_of data ''domains''"
    and "domain_names rec = Inr names"
    and "organizations_equal u data rec = Inr True"
    and "locations_equal u data rec = Inr True"
  shows "subnets_equal u data rec = Inr True"
proof -
  have "domain_names data = domain_names rec"
    using assms(2) by (simp add: domain_names_def dict_index_def)
  with assms(3) have "domains_equal data rec = Inr True"
    by (simp add: domains_equal_def list_sort_def)
  with assms(1,4,5) show ?thesis by (simp add: subnets_equal_def)
qed

lemma held_as_sentD:
  assumes "held_as_sent u c params data s" and "map_of params ''name'' = Some name"
  obtains hit rec where
    "search_subnet c [(''name'', name)] s = Inr (Some hit)" "hit \<noteq> []"
    "get_subnet c (dict_get hit ''id'') s = Inr (Some rec)" "rec \<noteq> []"
    "subnets_equal u data rec = Inr True"
proof (cases "search_subnet c [(''name'', name)] s")
  case (Inl msg)
  with assms show ?thesis by (simp add: held_as_sent_def)
next
  case (Inr found_subnet)
  show ?thesis
  proof (cases found_subnet)
    case None
    with Inr assms show ?thesis by (simp add: held_as_sent_def)
  next
    case (Some hit)
    with Inr have h: "search_subnet c [(''name'', name)] s = Inr (Some hit)" by simp
    show ?thesis
    proof (cases "get_subnet c (dict_get hit ''id'') s")
      case (Inl msg)
      with h assms show ?thesis by (simp add: held_as_sent_def)
    next
      case got: (Inr fetched)
      show ?thesis
      proof (cases fetched)
        case None
        with got h assms show ?thesis by (simp add: held_as_sent_def)
      next
        case (Some rec)
        with got have g: "get_subnet c (dict_get hit ''id'') s = Inr (Some rec)" by simp
        from assms h g have ne: "hit \<noteq> []" "rec \<noteq> []"
          and f: "list_all (\<lambda>key. py_eq (dict_get data key) (dict_get rec key))
                    comparable_keys"
          and d: "map_of rec ''domains'' = map_of data ''domains''"
          and n: "case domain_names rec of Inl e \<Rightarrow> False | Inr names \<Rightarrow> True"
          and o: "organizations_equal u data rec = Inr True"
          and l: "locations_equal u data rec = Inr True"
          by (simp_all add: held_as_sent_def comparable_keys_def)
        from n obtain names where dn: "domain_names rec = Inr names"
          by (cases "domain_names rec") auto
        show ?thesis
          by (rule that [OF h ne(1) g ne(2) held_equal [OF f d dn o l]])
      qed
    qed
  qed
qed

lemma apply_change_equal:
  "rec \<noteq> [] \<Longrightarrow> state \<noteq> PStr ''absent'' \<Longrightarrow> subnets_equal u data rec = Inr True \<Longrightarrow>
   apply_change u c state (Some rec) data s = (Inr (False, Some rec), s, [])"
  by (simp add: apply_change_def run_defs py_eq_str)

lemma apply_change_absent_none:
  "\<not> found subnet \<Longrightarrow> state = PStr ''absent'' \<Longrightarrow>
   apply_change u c state subnet data s = (Inr (False, subnet), s, [])"
  by (auto simp: apply_change_def run_defs split: option.splits)

lemma example_delete_run:
  "ensure u mem_client (example_params ''absent'') (example_store [example_record])
     = (Inr (True, Some example_record), (example_store [])\<lparr>next_id := 2\<rparr>,
        [SearchSubnet [(''name'', PStr ''MySubnet'')], GetSubnet (PInt 1)] @ example_lookups
          @ [DeleteSubnet (PInt 1)])"
proof -
  have a: "apply_change u mem_client (PStr ''absent'') (Some example_record) example_data
        (example_store [example_record])
      = (Inr (True, Some example_record), (example_store [])\<lparr>next_id := 2\<rparr>,
         [DeleteSubnet (PInt 1)])"
    by (simp add: apply_change_def run_defs example_search_record example_delete)
  show ?thesis
    by (rule ensure_decided [OF example_params_simps example_fetch_record example_resolve_mem a])
qed

lemma example_update_run:
  "ensure lenient_utils mem_client (example_params ''present'') (example_store [stale_record])
     = (Inr (True, Some example_record), example_store [example_record],
        [SearchSubnet [(''name'', PStr ''MySubnet'')], GetSubnet (PInt 1)] @ example_lookups
          @ [UpdateSubnet (PInt 1) example_data])"
proof -
  have f: "fetch_subnet mem_client [(''name'', PStr ''MySubnet'')] (example_store [stale_record])
     = (Inr (Some stale_record), example_store [stale_record],
        [SearchSubnet [(''name'', PStr ''MySubnet'')], GetSubnet (PInt 1)])"
    by (simp add: fetch_subnet_found [OF example_search_stale(1)] found_def record_id_def
        example_search_stale)
  have a: "apply_change lenient_utils mem_client (PStr ''present'') (Some stale_record)
        example_data (example_store [stale_record])
      = (Inr (True, Some example_record), example_store [example_record],
         [UpdateSubnet (PInt 1) example_data])"
    by (simp add: apply_change_def run_defs example_search_stale example_update example_differ)
  show ?thesis
    by (rule ensure_decided [OF example_params_simps f example_resolve_mem a])
qed

lemma example_lookups_same:
  "\<forall>rt q. search_resource mem_client rt q (example_store recs)
     = search_resource mem_client rt q (example_store recs')"
  "\<forall>rt q. search_resource mem_client rt q ((example_store recs)\<lparr>next_id := n\<rparr>)
     = search_resource mem_client rt q (example_store recs')"
  by (simp_all add: mem_client_simps example_store_def)

lemma example_held:
  "held_as_sent lenient_utils mem_client (example_params state) example_data
     (example_store [example_record])"
proof -
  have "list_all (\<lambda>key. py_eq (dict_get example_data key) (dict_get example_record key))
      [''name'', ''dns_primary'', ''dns_secondary'', ''gateway'', ''ipam'',
       ''boot_mode'', ''mask'', ''network'', ''vlanid'', ''from'', ''to'',
       ''tftp_id'', ''dns_id'', ''dhcp_id'', ''discovery_id'']"
    by (simp add: example_record_def example_data_def dict_get_def)
  moreover have "map_of example_record ''domains'' = map_of example_data ''domains''"
    by (simp add: example_record_def example_data_def)
  moreover have "domain_names example_record
      = Inr [PStr ''example.com'']"
    by (simp add: domain_names_def dict_index_def py_iter_def subscript_def
        example_record_def example_data_def)
  ultimately show ?thesis
    by (simp add: held_as_sent_def example_params_simps example_search_record
        lenient_utils_def)
qed

lemma example_gone:
  "gone mem_client (example_params state) ((example_store [])\<lparr>next_id := 2\<rparr>)"
  by (simp add: gone_def example_params_simps mem_client_simps example_store_def found_def)

lemma association_names_reads:
  fixes r r' :: pydict
  assumes "map_of r key = map_of r' key"
  shows "association_names key r = association_names key r'"
  using assms by (simp add: association_names_def dict_index_def)

lemma names_equal_reads: "reads_only [key] (names_equal key)"
  unfolding reads_only_def
proof (intro allI impI)
  fix d s d' s' :: pydict
  assume "\<forall>k\<in>set [key]. map_of d k = map_of d' k \<and> map_of s k = map_of s' k"
  then have m: "map_of d key = map_of d' key" "map_of s key = map_of s' key"
    by simp_all
  have h: "association_names key d = association_names key d'"
    "association_names key s = association_names key s'"
    by (rule association_names_reads [OF m(1)]) (rule association_names_reads [OF m(2)])
  show "names_equal key d s = names_equal key d' s'"
    unfolding names_equal_def h by (rule refl)
qed

lemma assigned_fields_equal:
  "\<forall>k\<in>set [''name'', ''dns_primary'', ''dns_secondary'', ''gateway'', ''ipam'', ''boot_mode'',
      ''mask'', ''network'', ''vlanid'', ''from'', ''to'', ''tftp_id'', ''dns_id'',
      ''dhcp_id'', ''discovery_id''].
     py_eq (dict_get assigned_data k) (dict_get assigned_record k)"
  by (simp add: assigned_data_def assigned_record_def example_data_def example_record_def
      dict_get_def)

lemma assigned_associations_equal:
  "domains_equal assigned_data assigned_record = Inr True"
  "organizations_equal spec_utils assigned_data assigned_record = Inr True"
  "locations_equal spec_utils assigned_data assigned_record = Inr True"
  by (simp_all add: domains_equal_def domain_names_def spec_utils_def names_equal_def
      association_names_def same_names_def dict_index_def py_iter_def subscript_def
      list_sort_def assigned_data_def assigned_record_def example_data_def example_record_def)

lemma assigned_mask_differs:
  "\<exists>k\<in>set [''name'', ''dns_primary'', ''dns_secondary'', ''gateway'', ''ipam'',
      ''boot_mode'', ''mask'', ''network'', ''vlanid'', ''from'', ''to'', ''tftp_id'',
      ''dns_id'', ''dhcp_id'', ''discovery_id''].
     \<not> py_eq (dict_get assigned_data k)
      (dict_get (dict_set assigned_record ''mask'' (PStr ''255.255.0.0'')) k)"
  by (simp add: assigned_data_def assigned_record_def example_data_def example_record_def
        dict_set_def dict_get_def)

lemma assigned_foreign_keys:
  "\<forall>k\<in>set ([''name'', ''dns_primary'', ''dns_secondary'', ''gateway'', ''ipam'',
      ''boot_mode'', ''mask'', ''network'', ''vlanid'', ''from'', ''to'', ''tftp_id'',
      ''dns_id'', ''dhcp_id'', ''discovery_id''] @ ''domains'' # [''organizations''] @ [''locations'']).
     map_of (assigned_data @ [(''comment'', PStr ''lab'')]) k = map_of assigned_data k
     \<and> map_of (assigned_record @ [(''created_at'', PStr ''today'')]) k
         = map_of assigned_record k"
  by (simp add: assigned_data_def assigned_record_def example_data_def example_record_def)

lemma spec_utils_reads:
  "reads_only [''organizations''] (organizations_equal spec_utils)
   \<and> reads_only [''locations''] (locations_equal spec_utils)"
  by (simp add: spec_utils_def names_equal_reads)

lemma assigned_all_equal:
  "(\<forall>k\<in>set [''name'', ''dns_primary'', ''dns_secondary'', ''gateway'', ''ipam'',
      ''boot_mode'', ''mask'', ''network'', ''vlanid'', ''from'', ''to'', ''tftp_id'',
      ''dns_id'', ''dhcp_id'', ''discovery_id'']. py_eq (dict_get assigned_data k) (dict_get assigned_record k))
   \<and> domains_equal assigned_data assigned_record = Inr True
   \<and> organizations_equal spec_utils assigned_data assigned_record = Inr True
   \<and> locations_equal spec_utils assigned_data assigned_record = Inr True"
  using assigned_fields_equal assigned_associations_equal by (intro conjI)

section \<open>The claims\<close>

text \<open>
  C1. The claim: \<open>domains_equal\<close> returns true if and only if the two lists of domain names
  are equal after sorting. The code binds the value of \<open>list.sort()\<close>, which is \<open>None\<close>,
  on both sides, and so compares \<open>None\<close> with \<open>None\<close>: two records whose domain lists
  name different domains (\<open>a.example\<close> against \<open>b.example\<close>) are found equal.
\<close>

theorem domains_equal_differing_names:
  "domains_equal
     [(''domains'', PList [PDict [(''id'', PInt 1), (''name'', PStr ''a.example'')]])]
     [(''domains'', PList [PDict [(''id'', PInt 2), (''name'', PStr ''b.example'')]])]
   = Inr True"
  by (simp add: domains_equal_def domain_names_def dict_index_def py_iter_def subscript_def
      list_sort_def)

text \<open>
  C2. When the parameters ask for state \<open>present\<close>, the search by name finds no subnet,
  every reference resolves and the client accepts the request, \<open>ensure\<close> issues
  \<open>create_subnet\<close> with the prepared data, once and as its only mutating call, and
  returns \<open>(True, created)\<close> with the record the client returned.
\<close>

theorem ensure_creates:
  assumes "map_of params ''name'' = Some name"
    and "map_of params ''state'' = Some (PStr ''present'')"
    and "map_of params ''locations'' = Some locations"
    and "map_of params ''organizations'' = Some organizations"
    and "search_subnet c [(''name'', name)] s = Inr None"
    and "resolve_references c params organizations locations [(''name'', name)] s
           = (Inr data, s, lookups)"
    and "create_subnet c data s = (Inr created, s')"
  shows "ensure u c params s
           = (Inr (True, created), s',
              SearchSubnet [(''name'', name)] # lookups @ [CreateSubnet data])
         \<and> filter is_mutating (calls (ensure u c params s)) = [CreateSubnet data]"
proof -
  have f: "fetch_subnet c [(''name'', name)] s = (Inr None, s, [SearchSubnet [(''name'', name)]])"
    using assms(5) by (simp add: fetch_subnet_none found_def)
  have a: "apply_change u c (PStr ''present'') None data s
             = (Inr (True, created), s', [CreateSubnet data])"
    using assms(7) by (simp add: apply_change_def run_defs)
  have e: "ensure u c params s
           = (Inr (True, created), s',
              [SearchSubnet [(''name'', name)]] @ lookups @ [CreateSubnet data])"
    by (rule ensure_decided [OF assms(1-4) f assms(6) a])
  have "list_all is_lookup lookups"
    using resolve_references_shape [OF assms(6)] by simp
  then have "filter is_mutating lookups = []" by (rule lookups_no_write)
  with e show ?thesis by (simp add: calls_def)
qed

text \<open>
  The example subnet, with its domain and its DNS proxy, against a remote that holds
  no subnet.
\<close>

theorem ensure_creates_witness:
  "ensure lenient_utils mem_client (example_params ''present'') (example_store [])
     = (Inr (True, Some example_record), example_store [example_record],
        SearchSubnet [(''name'', PStr ''MySubnet'')] # example_lookups
          @ [CreateSubnet example_data])"
  using ensure_creates [of "example_params ''present''" "PStr ''MySubnet''" PNone PNone
      mem_client "example_store []" example_data example_lookups "Some example_record"
      "example_store [example_record]" lenient_utils]
  by (simp add: example_params_simps example_search_empty example_resolve_mem example_create)

text \<open>
  C3. When the parameters ask for state \<open>absent\<close>, the search by name finds a subnet,
  fetching it by id gives the record \<open>rec\<close>, every reference resolves and the client
  accepts the request, \<open>ensure\<close> issues \<open>delete_subnet\<close> on the id of \<open>rec\<close>, once and
  as its only mutating call, and returns \<open>(True, deleted)\<close> with the record the client
  returned.
\<close>

theorem ensure_deletes:
  assumes "map_of params ''name'' = Some name"
    and "map_of params ''state'' = Some (PStr ''absent'')"
    and "map_of params ''locations'' = Some locations"
    and "map_of params ''organizations'' = Some organizations"
    and "search_subnet c [(''name'', name)] s = Inr (Some hit)" and "hit \<noteq> []"
    and "get_subnet c (dict_get hit ''id'') s = Inr (Some rec)" and "rec \<noteq> []"
    and "resolve_references c params organizations locations [(''name'', name)] s
           = (Inr data, s, lookups)"
    and "delete_subnet c (dict_get rec ''id'') s = (Inr deleted, s')"
  shows "ensure u c params s
           = (Inr (True, deleted), s',
              SearchSubnet [(''name'', name)] # GetSubnet (dict_get hit ''id'') # lookups
                @ [DeleteSubnet (dict_get rec ''id'')])
         \<and> filter is_mutating (calls (ensure u c params s))
             = [DeleteSubnet (dict_get rec ''id'')]"
proof -
  have f: "fetch_subnet c [(''name'', name)] s
             = (Inr (Some rec), s,
                [SearchSubnet [(''name'', name)], GetSubnet (dict_get hit ''id'')])"
    using assms(5-7) by (simp add: fetch_subnet_found found_def record_id_def)
  have a: "apply_change u c (PStr ''absent'') (Some rec) data s
             = (Inr (True, deleted), s', [DeleteSubnet (dict_get rec ''id'')])"
    using assms(8,10) by (simp add: apply_change_def run_defs)
  have e: "ensure u c params s
           = (Inr (True, deleted), s',
              [SearchSubnet [(''name'', name)], GetSubnet (dict_get hit ''id'')] @ lookups
                @ [DeleteSubnet (dict_get rec ''id'')])"
    by (rule ensure_decided [OF assms(1-4) f assms(9) a])
  have "list_all is_lookup lookups"
    using resolve_references_shape [OF assms(9)] by simp
  then have "filter is_mutating lookups = []" by (rule lookups_no_write)
  with e show ?thesis by (simp add: calls_def)
qed

text \<open>
  The same parameters with state \<open>absent\<close>, against the remote that holds the subnet.
\<close>

theorem ensure_deletes_witness:
  "ensure lenient_utils mem_client (example_params ''absent'') (example_store [example_record])
     = (Inr (True, Some example_record), (example_store [])\<lparr>next_id := 2\<rparr>,
        SearchSubnet [(''name'', PStr ''MySubnet'')] # GetSubnet (PInt 1) # example_lookups
          @ [DeleteSubnet (PInt 1)])"
  using ensure_deletes [of "example_params ''absent''" "PStr ''MySubnet''" PNone PNone
      mem_client "example_store [example_record]" example_record example_record
      example_data example_lookups "Some example_record" "(example_store [])\<lparr>next_id := 2\<rparr>"
      lenient_utils]
  by (simp add: example_params_simps example_search_record example_resolve_mem example_delete)

text \<open>
  C4. The claim: with state \<open>present\<close> and the subnet existing, \<open>ensure\<close> either finds
  the prepared data equal to the record and returns \<open>changed = false\<close>, or updates once
  and returns \<open>changed = true\<close>. The code does neither when the parameters leave the
  domains out: \<open>prepare_data\<close> copies the \<open>None\<close> of the parameter into
  \<open>data['domains']\<close>, and once the fifteen fields are equal \<open>domains_equal\<close> maps over
  \<open>None\<close> and raises \<open>TypeError\<close>. Here the remote holds the subnet exactly as a first
  run with the same parameters created it (\<open>omitted_domains_first_run\<close>); the run ends
  with the uncaught exception after the two reads, without a write.
\<close>

theorem ensure_present_existing_raises:
  "ensure u mem_client plain_params (example_store [plain_record])
     = (Inl (Uncaught TypeError), example_store [plain_record],
        [SearchSubnet [(''name'', PStr ''MySubnet'')], GetSubnet (PInt 1)])"
proof -
  have s: "search_subnet mem_client [(''name'', PStr ''MySubnet'')] (example_store [plain_record])
      = Inr (Some plain_record)"
    "get_subnet mem_client (PInt 1) (example_store [plain_record]) = Inr (Some plain_record)"
    "plain_record \<noteq> []" "dict_get plain_record ''id'' = PInt 1"
    by (simp_all add: mem_client_def example_store_def plain_record_def plain_data_def
        same_name_def has_id_def dict_get_def)
  have f: "fetch_subnet mem_client [(''name'', PStr ''MySubnet'')] (example_store [plain_record])
      = (Inr (Some plain_record), example_store [plain_record],
         [SearchSubnet [(''name'', PStr ''MySubnet'')], GetSubnet (PInt 1)])"
    by (simp add: fetch_subnet_found [OF s(1)] found_def record_id_def s)
  have e: "subnets_equal u plain_data plain_record = Inl (Uncaught TypeError)"
    by (simp add: subnets_equal_def comparable_keys_def domains_equal_def domain_names_def
        dict_index_def py_iter_def plain_record_def plain_data_def dict_get_def)
  have a: "apply_change u mem_client (PStr ''present'') (Some plain_record) plain_data
        (example_store [plain_record])
      = (Inl (Uncaught TypeError), example_store [plain_record], [])"
    by (simp add: apply_change_def run_defs e s)
  from ensure_decided [OF plain_params_simps f plain_resolve a] show ?thesis by simp
qed

text \<open>
  C5. In every run of \<open>ensure\<close>: if a lookup of a reference by name that the run issues
  finds nothing (the client returns \<open>None\<close> or an empty record), the run ends there with
  the failure "Could not find resource type ... defined as ...", which carries the
  resource type and the item looked up; the lookup is the last call of the run, no
  create, update or delete call has been issued, and the remote state is as it was.
  (Lookups of organizations and locations go through \<open>get_organization_ids\<close> and
  \<open>get_location_ids\<close>, modelled above from the spec.)
\<close>

theorem ensure_reference_not_found:
  assumes "ensure u c params s = (r, s', cs)"
    and "SearchResource rt q \<in> set cs"
    and "search_resource c rt q s = Inr res" and "\<not> found res"
  shows "(\<exists>item. q = search_data item \<and> r = Inl (FailJson (CouldNotFindResource rt item)))
         \<and> filter is_mutating cs = [] \<and> s' = s \<and> last cs = SearchResource rt q"
proof -
  have nf: "not_found_call c s (SearchResource rt q)"
    using assms(3,4) by (simp add: not_found_call_def)
  from assms(1) show ?thesis
  proof (cases rule: ensure_phases)
    case (key_error k)
    with assms(2) show ?thesis by simp
  next
    case (fetch_failed name e rcs)
    with fetch_subnet_shape [OF fetch_failed(2)] assms(2) show ?thesis by auto
  next
    case (resolve_failed name state locations organizations subnet rcs e lcs)
    have rcs: "list_all is_subnet_read rcs"
      using fetch_subnet_shape [OF resolve_failed(5)] by auto
    then have "SearchResource rt q \<notin> set rcs" by (auto simp: list_all_iff)
    with assms(2) resolve_failed(9) have m: "SearchResource rt q \<in> set lcs" by simp
    from resolve_references_outcome [of c s params organizations locations "[(''name'', name)]"]
      resolve_failed(6)
    have b: "list_all (\<lambda>x. \<not> not_found_call c s x) (butlast lcs)"
      and l: "list_all is_lookup lcs"
      and x: "lcs \<noteq> [] \<and> not_found_call c s (last lcs) \<longrightarrow>
                (\<exists>rt item. last lcs = SearchResource rt (search_data item)
                   \<and> e = FailJson (CouldNotFindResource rt item))"
      by (simp_all add: lookup_outcome_def)
    from last_of_butlast_all [OF m b] nf
    have la: "lcs \<noteq> []" "last lcs = SearchResource rt q" by simp_all
    with x nf obtain item where "q = search_data item"
      "e = FailJson (CouldNotFindResource rt item)" by auto
    moreover have "filter is_mutating rcs = []"
      using rcs by (auto simp: filter_empty_conv list_all_iff dest: mutating_not_subnet_read)
    moreover have "filter is_mutating lcs = []" using l by (rule lookups_no_write)
    ultimately show ?thesis
      using resolve_failed(7-9) la by auto
  next
    case (decided name state locations organizations subnet rcs data lcs wcs)
    have rcs: "list_all is_subnet_read rcs"
      using fetch_subnet_shape [OF decided(5)] by auto
    then have 1: "SearchResource rt q \<notin> set rcs" by (auto simp: list_all_iff)
    have 2: "SearchResource rt q \<notin> set wcs"
      using apply_change_shape [OF decided(7)] by auto
    from resolve_references_outcome [of c s params organizations locations "[(''name'', name)]"]
      decided(6)
    have "list_all (\<lambda>x. \<not> not_found_call c s x) lcs"
      by (simp add: lookup_outcome_def)
    with nf have 3: "SearchResource rt q \<notin> set lcs" by (auto simp: list_all_iff)
    from 1 2 3 assms(2) decided(8) show ?thesis by simp
  qed
qed

text \<open>
  The DNS proxy \<open>proxy1\<close> of the parameters does not exist in the remote.
\<close>

theorem ensure_reference_not_found_witness:
  "(\<exists>item. [(''name'', PStr ''proxy1'')] = search_data item
      \<and> outcome (ensure lenient_utils mem_client (example_params ''present'') bare_store)
          = Inl (FailJson (CouldNotFindResource ''smart_proxies'' item)))
   \<and> filter is_mutating (calls (ensure lenient_utils mem_client (example_params ''present'')
        bare_store)) = []
   \<and> remote (ensure lenient_utils mem_client (example_params ''present'') bare_store)
       = bare_store"
proof -
  have s: "search_resource mem_client ''smart_proxies'' [(''name'', PStr ''proxy1'')] bare_store
      = Inr None"
    by (simp add: mem_client_simps bare_store_def)
  have m: "SearchResource ''smart_proxies'' [(''name'', PStr ''proxy1'')]
      \<in> set ([SearchSubnet [(''name'', PStr ''MySubnet'')]]
          @ [SearchResource ''domains'' [(''name'', PStr ''example.com'')],
             SearchResource ''smart_proxies'' [(''name'', PStr ''proxy1'')]])"
    by simp
  have n: "\<not> found None" by (simp add: found_def)
  from ensure_reference_not_found [OF bare_run [of lenient_utils] m s n]
  show ?thesis
    by (simp add: bare_run outcome_def remote_def calls_def)
qed

text \<open>
  C6, as amended. The claim has the references resolved before the subnet is fetched;
  the code does it the other way round. In every run of \<open>ensure\<close> that looks a reference
  up, the first call is the search of the subnet by name; the subnet reads (that search
  and the get by id) come first, and every lookup of a reference comes after them.
\<close>

theorem ensure_fetches_first:
  assumes "ensure u c params s = (r, s', cs)" and "SearchResource rt q \<in> set cs"
  shows "\<exists>name reads rest.
           map_of params ''name'' = Some name
           \<and> cs = SearchSubnet [(''name'', name)] # reads @ rest
           \<and> list_all is_subnet_read reads
           \<and> list_all (\<lambda>x. \<not> is_subnet_read x) rest
           \<and> SearchResource rt q \<in> set rest"
proof -
  from assms(1) obtain reads lookups writes where
    cs: "cs = reads @ lookups @ writes"
    and r: "list_all is_subnet_read reads"
    and l: "list_all is_lookup lookups"
    and w: "writes = [] \<or> (\<exists>w. writes = [w] \<and> is_mutating w)"
    and e: "reads = [] \<longrightarrow> cs = []"
    and h: "reads \<noteq> [] \<longrightarrow>
       (\<exists>name. map_of params ''name'' = Some name \<and> hd reads = SearchSubnet [(''name'', name)])"
    by (rule ensure_calls)
  from assms(2) e have ne: "reads \<noteq> []" by auto
  with h obtain name where n: "map_of params ''name'' = Some name"
    and hd: "hd reads = SearchSubnet [(''name'', name)]" by blast
  from ne hd obtain reads' where reads: "reads = SearchSubnet [(''name'', name)] # reads'"
    by (cases reads) auto
  have nl: "list_all (\<lambda>x. \<not> is_subnet_read x) (lookups @ writes)"
    using l w by (auto simp: list_all_iff dest: lookup_not_subnet_read mutating_not_subnet_read)
  have "SearchResource rt q \<notin> set reads"
    using r by (auto simp: list_all_iff)
  with assms(2) cs have "SearchResource rt q \<in> set (lookups @ writes)" by auto
  with n cs reads r nl show ?thesis
    by (intro exI [of _ name] exI [of _ reads'] exI [of _ "lookups @ writes"]) simp
qed

text \<open>
  The run that creates the example subnet: the search of the subnet, then the lookups
  of the domain and of the proxy.
\<close>

theorem ensure_fetches_first_witness:
  "\<exists>name reads rest.
     map_of (example_params ''present'') ''name'' = Some name
     \<and> SearchSubnet [(''name'', PStr ''MySubnet'')] # example_lookups @ [CreateSubnet example_data]
         = SearchSubnet [(''name'', name)] # reads @ rest
     \<and> list_all is_subnet_read reads
     \<and> list_all (\<lambda>x. \<not> is_subnet_read x) rest
     \<and> SearchResource ''smart_proxies'' [(''name'', PStr ''proxy1'')] \<in> set rest"
  using ensure_fetches_first [of lenient_utils mem_client "example_params ''present''"
      "example_store []" "Inr (True, Some example_record)" "example_store [example_record]"
      "SearchSubnet [(''name'', PStr ''MySubnet'')] # example_lookups @ [CreateSubnet example_data]"
      "''smart_proxies''" "[(''name'', PStr ''proxy1'')]"]
  by (simp add: example_first_run example_lookups_def)

text \<open>
  C6, the claim as stated fails: the calls of the run that creates the example subnet,
  in order. The search of the subnet by name precedes both lookups.
\<close>

theorem ensure_resolves_first_counterexample:
  "calls (ensure lenient_utils mem_client (example_params ''present'') (example_store []))
     = [SearchSubnet [(''name'', PStr ''MySubnet'')],
        SearchResource ''domains'' [(''name'', PStr ''example.com'')],
        SearchResource ''smart_proxies'' [(''name'', PStr ''proxy1'')],
        CreateSubnet example_data]"
  by (simp add: example_first_run calls_def example_lookups_def)

text \<open>
  C7, as amended. The claim has every second run return \<open>changed = false\<close>, whatever
  the remote does with what it is sent. It holds for a remote that holds what the first
  run wrote. For every client, parameters and remote state: if a first run succeeds and
  leaves the state \<open>s'\<close>, the lookups find in \<open>s'\<close> what they found before, and each call
  of the first run has taken effect in \<open>s'\<close> (after a create or an update the subnet is
  held as sent, after a delete it is gone), then the second run, from \<open>s'\<close>, returns
  \<open>changed = false\<close>, issues no mutating call and leaves \<open>s'\<close> as it is. A subnet sent
  without a domains list is not held as sent in this sense, and nothing is said of it.
\<close>

theorem ensure_second_run:
  assumes first: "ensure u c params s = (Inr first, s', cs)"
    and lookups: "\<forall>rt q. search_resource c rt q s' = search_resource c rt q s"
    and took: "list_all (settled u c params s') cs"
  shows "\<exists>subnet cs'. ensure u c params s' = (Inr (False, subnet), s', cs')
           \<and> filter is_mutating cs' = []"
  using first
proof (cases rule: ensure_phases)
  case (key_error k)
  then show ?thesis by simp
next
  case (fetch_failed name e rcs)
  then show ?thesis by simp
next
  case (resolve_failed name state locations organizations subnet rcs e lcs)
  then show ?thesis by simp
next
  case (decided name state locations organizations subnet rcs data lcs wcs)
  note p = decided(1-4)
  have res: "resolve_references c params organizations locations [(''name'', name)] s'
      = (Inr data, s', lcs)"
    using same_at_resolve_references [OF lookups, of params organizations locations
        "[(''name'', name)]"] decided(6)
    by (simp add: same_at_def)
  have nl: "filter is_mutating lcs = []"
    using resolve_references_shape [OF decided(6)] by (simp add: lookups_no_write)
  have nr: "filter is_mutating rcs = []"
    using fetch_subnet_shape [OF decided(5)] by auto
  from decided(7) show ?thesis
  proof (cases rule: apply_change_cases)
    case nothing
    with first decided(8) nl nr show ?thesis by simp
  next
    case created
    with took decided(8) have "held_as_sent u c params data s'"
      by (simp add: settled_def)
    then obtain hit rec where h: "search_subnet c [(''name'', name)] s' = Inr (Some hit)"
      "hit \<noteq> []" "get_subnet c (dict_get hit ''id'') s' = Inr (Some rec)" "rec \<noteq> []"
      "subnets_equal u data rec = Inr True"
      using p(1) by (rule held_as_sentD)
    have f: "fetch_subnet c [(''name'', name)] s'
        = (Inr (Some rec), s', [SearchSubnet [(''name'', name)], GetSubnet (dict_get hit ''id'')])"
      using h(1-3) by (simp add: fetch_subnet_found found_def record_id_def)
    have a: "apply_change u c state (Some rec) data s' = (Inr (False, Some rec), s', [])"
      using h(4,5) created(3) by (simp add: apply_change_equal)
    from ensure_decided [OF p f res a] nl show ?thesis by simp
  next
    case (deleted old)
    with took decided(8) have "gone c params s'"
      by (simp add: settled_def)
    with p(1) obtain sub where g: "search_subnet c [(''name'', name)] s' = Inr sub"
      "\<not> found sub"
      by (auto simp: gone_def split: sum.splits)
    have f: "fetch_subnet c [(''name'', name)] s' = (Inr sub, s', [SearchSubnet [(''name'', name)]])"
      using g by (simp add: fetch_subnet_none)
    have a: "apply_change u c state sub data s' = (Inr (False, sub), s', [])"
      using g(2) deleted(3) by (simp add: apply_change_absent_none)
    from ensure_decided [OF p f res a] nl show ?thesis by simp
  next
    case (updated old)
    with took decided(8) have "held_as_sent u c params data s'"
      by (simp add: settled_def)
    then obtain hit rec where h: "search_subnet c [(''name'', name)] s' = Inr (Some hit)"
      "hit \<noteq> []" "get_subnet c (dict_get hit ''id'') s' = Inr (Some rec)" "rec \<noteq> []"
      "subnets_equal u data rec = Inr True"
      using p(1) by (rule held_as_sentD)
    have f: "fetch_subnet c [(''name'', name)] s'
        = (Inr (Some rec), s', [SearchSubnet [(''name'', name)], GetSubnet (dict_get hit ''id'')])"
      using h(1-3) by (simp add: fetch_subnet_found found_def record_id_def)
    have a: "apply_change u c state (Some rec) data s' = (Inr (False, Some rec), s', [])"
      using h(4,5) updated(3) by (simp add: apply_change_equal)
    from ensure_decided [OF p f res a] nl show ?thesis by simp
  qed
qed

text \<open>
  Pairs of runs against the in-memory remote, which stores the data as sent: after the
  run that creates the example subnet, after the run that updates its netmask, and after
  the run that deletes it, the second run changes nothing.
\<close>

theorem ensure_second_run_witness:
  "(ensure lenient_utils mem_client (example_params ''present'') (example_store [])
      = (Inr (True, Some example_record), example_store [example_record],
         [SearchSubnet [(''name'', PStr ''MySubnet'')]] @ example_lookups
           @ [CreateSubnet example_data])
    \<and> ensure lenient_utils mem_client (example_params ''present'')
        (example_store [stale_record])
      = (Inr (True, Some example_record), example_store [example_record],
         [SearchSubnet [(''name'', PStr ''MySubnet'')], GetSubnet (PInt 1)] @ example_lookups
           @ [UpdateSubnet (PInt 1) example_data])
    \<and> (\<exists>subnet cs'. ensure lenient_utils mem_client (example_params ''present'')
        (example_store [example_record])
      = (Inr (False, subnet), example_store [example_record], cs')
      \<and> filter is_mutating cs' = []))
   \<and> (ensure lenient_utils mem_client (example_params ''absent'')
        (example_store [example_record])
      = (Inr (True, Some example_record), (example_store [])\<lparr>next_id := 2\<rparr>,
         [SearchSubnet [(''name'', PStr ''MySubnet'')], GetSubnet (PInt 1)] @ example_lookups
           @ [DeleteSubnet (PInt 1)])
    \<and> (\<exists>subnet cs'. ensure lenient_utils mem_client (example_params ''absent'')
        ((example_store [])\<lparr>next_id := 2\<rparr>)
      = (Inr (False, subnet), (example_store [])\<lparr>next_id := 2\<rparr>, cs')
      \<and> filter is_mutating cs' = []))"
proof -
  have 1: "list_all (settled lenient_utils mem_client (example_params ''present'')
        (example_store [example_record]))
      ([SearchSubnet [(''name'', PStr ''MySubnet'')]] @ example_lookups
          @ [CreateSubnet example_data])"
    by (simp add: settled_def example_lookups_def example_held)
  have 2: "list_all (settled lenient_utils mem_client (example_params ''absent'')
        ((example_store [])\<lparr>next_id := 2\<rparr>))
      ([SearchSubnet [(''name'', PStr ''MySubnet'')], GetSubnet (PInt 1)] @ example_lookups
          @ [DeleteSubnet (PInt 1)])"
    by (simp add: settled_def example_lookups_def example_gone)
  have 3: "list_all (settled lenient_utils mem_client (example_params ''present'')
        (example_store [example_record]))
      ([SearchSubnet [(''name'', PStr ''MySubnet'')], GetSubnet (PInt 1)] @ example_lookups
          @ [UpdateSubnet (PInt 1) example_data])"
    by (simp add: settled_def example_lookups_def example_held)
  note a = ensure_second_run [OF example_first_run [of lenient_utils] example_lookups_same(1) 1]
  note b = ensure_second_run [OF example_delete_run [of lenient_utils] example_lookups_same(2) 2]
  note c = ensure_second_run [OF example_update_run example_lookups_same(1) 3]
  show ?thesis
  proof (intro conjI)
    show "ensure lenient_utils mem_client (example_params ''present'') (example_store [])
      = (Inr (True, Some example_record), example_store [example_record],
         [SearchSubnet [(''name'', PStr ''MySubnet'')]] @ example_lookups
           @ [CreateSubnet example_data])"
      by (rule example_first_run)
    show "ensure lenient_utils mem_client (example_params ''present'')
        (example_store [stale_record])
      = (Inr (True, Some example_record), example_store [example_record],
         [SearchSubnet [(''name'', PStr ''MySubnet'')], GetSubnet (PInt 1)] @ example_lookups
           @ [UpdateSubnet (PInt 1) example_data])"
      by (rule example_update_run)
    show "\<exists>subnet cs'. ensure lenient_utils mem_client (example_params ''present'')
        (example_store [example_record])
      = (Inr (False, subnet), example_store [example_record], cs')
      \<and> filter is_mutating cs' = []"
      using a c by simp
    show "ensure lenient_utils mem_client (example_params ''absent'')
        (example_store [example_record])
      = (Inr (True, Some example_record), (example_store [])\<lparr>next_id := 2\<rparr>,
         [SearchSubnet [(''name'', PStr ''MySubnet'')], GetSubnet (PInt 1)] @ example_lookups
           @ [DeleteSubnet (PInt 1)])"
      by (rule example_delete_run)
    show "\<exists>subnet cs'. ensure lenient_utils mem_client (example_params ''absent'')
        ((example_store [])\<lparr>next_id := 2\<rparr>)
      = (Inr (False, subnet), (example_store [])\<lparr>next_id := 2\<rparr>, cs')
      \<and> filter is_mutating cs' = []"
      by (rule b)
  qed
qed

text \<open>
  C7, the claim as stated fails. The remote fills in the \<open>ipam\<close> mode that the
  parameters leave out. The first run creates the subnet; the second finds \<open>ipam\<close>
  different from the desired \<open>None\<close>, updates, and returns \<open>changed = true\<close>.
\<close>

theorem ensure_second_run_counterexample:
  "ensure lenient_utils defaulting_client (example_params ''present'') (example_store [])
     = (Inr (True, Some defaulted_record), example_store [defaulted_record],
        [SearchSubnet [(''name'', PStr ''MySubnet'')],
         SearchResource ''domains'' [(''name'', PStr ''example.com'')],
         SearchResource ''smart_proxies'' [(''name'', PStr ''proxy1'')],
         CreateSubnet example_data])
   \<and> ensure lenient_utils defaulting_client (example_params ''present'')
        (example_store [defaulted_record])
     = (Inr (True, Some defaulted_record), example_store [defaulted_record],
        [SearchSubnet [(''name'', PStr ''MySubnet'')], GetSubnet (PInt 1),
         SearchResource ''domains'' [(''name'', PStr ''example.com'')],
         SearchResource ''smart_proxies'' [(''name'', PStr ''proxy1'')],
         UpdateSubnet (PInt 1) example_data])"
  by (simp add: defaulting_first_run defaulting_second_run example_lookups_def)

text \<open>
  C8. In every run of \<open>ensure\<close>, whatever the client, the parameters and the remote
  state: at most one mutating call (create, update or delete) is issued, and no mutating
  call is followed by another call, so that every search, get and lookup of the run
  precedes the write and the run ends with it.
\<close>

theorem ensure_single_write:
  "length (filter is_mutating (calls (ensure u c params s))) \<le> 1
   \<and> list_all (\<lambda>x. \<not> is_mutating x) (butlast (calls (ensure u c params s)))"
proof -
  obtain r s' cs where e: "ensure u c params s = (r, s', cs)"
    by (cases "ensure u c params s") auto
  from e obtain reads lookups writes where
    cs: "cs = reads @ lookups @ writes"
    and r: "list_all is_subnet_read reads"
    and l: "list_all is_lookup lookups"
    and w: "writes = [] \<or> (\<exists>w. writes = [w] \<and> is_mutating w)"
    by (rule ensure_calls)
  have nr: "list_all (\<lambda>x. \<not> is_mutating x) reads"
    using r by (auto simp: list_all_iff dest: mutating_not_subnet_read)
  have nl: "list_all (\<lambda>x. \<not> is_mutating x) lookups"
    using l by (auto simp: list_all_iff dest: lookup_not_mutating)
  have fr: "filter is_mutating reads = []" "filter is_mutating lookups = []"
    using nr nl by (auto simp: filter_empty_conv list_all_iff)
  from w show ?thesis
  proof
    assume "writes = []"
    with cs nr nl fr e show ?thesis
      by (simp add: calls_def butlast_append list_all_butlast)
  next
    assume "\<exists>w. writes = [w] \<and> is_mutating w"
    then obtain w where "writes = [w]" "is_mutating w" by blast
    with cs nr nl fr e show ?thesis
      by (simp add: calls_def butlast_append)
  qed
qed

text \<open>
  C9. The fifteen fields that \<open>subnets_equal\<close> compares are name, dns_primary,
  dns_secondary, gateway, ipam, boot_mode, mask, network, vlanid, from, to, tftp_id,
  dns_id, dhcp_id and discovery_id. As soon as one of them has values that differ under
  Python's \<open>==\<close> in the data and in the record (a missing key counts as \<open>None\<close>), the
  result is false. The result is true exactly when all fifteen are equal and the three
  comparisons of the association lists (domains, organizations, locations) return true.
  And the result depends on nothing but the fifteen fields, the key \<open>domains\<close>, and
  the keys that the two helpers of the utility library read: for helpers that read only
  \<open>organizations\<close> and \<open>locations\<close>, these are the fixed set and the three association
  lists.
\<close>

theorem subnets_equal_fixed_fields:
  assumes "compared =
     [''name'', ''dns_primary'', ''dns_secondary'', ''gateway'', ''ipam'', ''boot_mode'',
      ''mask'', ''network'', ''vlanid'', ''from'', ''to'', ''tftp_id'', ''dns_id'',
      ''dhcp_id'', ''discovery_id'']"
  shows "((\<exists>k\<in>set compared. \<not> py_eq (dict_get data k) (dict_get subnet k))
            \<longrightarrow> subnets_equal u data subnet = Inr False)
       \<and> (subnets_equal u data subnet = Inr True \<longleftrightarrow>
            (\<forall>k\<in>set compared. py_eq (dict_get data k) (dict_get subnet k))
            \<and> domains_equal data subnet = Inr True
            \<and> organizations_equal u data subnet = Inr True
            \<and> locations_equal u data subnet = Inr True)
       \<and> (reads_only org_keys (organizations_equal u) \<and> reads_only loc_keys (locations_equal u)
            \<longrightarrow> reads_only (compared @ ''domains'' # org_keys @ loc_keys) (subnets_equal u))"
proof -
  have ck: "comparable_keys = compared" by (simp add: assms comparable_keys_def)
  have all: "list_all (\<lambda>key. py_eq (dict_get d key) (dict_get r key)) comparable_keys
      = (\<forall>k\<in>set compared. py_eq (dict_get d k) (dict_get r k))" for d r
    by (simp add: ck list_all_iff)
  have 1: "(\<exists>k\<in>set compared. \<not> py_eq (dict_get data k) (dict_get subnet k))
            \<longrightarrow> subnets_equal u data subnet = Inr False"
    by (simp add: subnets_equal_def all)
  have 2: "subnets_equal u data subnet = Inr True \<longleftrightarrow>
            (\<forall>k\<in>set compared. py_eq (dict_get data k) (dict_get subnet k))
            \<and> domains_equal data subnet = Inr True
            \<and> organizations_equal u data subnet = Inr True
            \<and> locations_equal u data subnet = Inr True"
  proof (cases "\<forall>k\<in>set compared. py_eq (dict_get data k) (dict_get subnet k)")
    case False
    with 1 show ?thesis by simp
  next
    case True
    then have e: "subnets_equal u data subnet =
        (case domains_equal data subnet of
           Inl e \<Rightarrow> Inl e
         | Inr de \<Rightarrow>
             (if \<not> de then Inr False
              else (case organizations_equal u data subnet of
                Inl e \<Rightarrow> Inl e
              | Inr oe \<Rightarrow>
                  (if \<not> oe then Inr False
                   else (case locations_equal u data subnet of
                     Inl e \<Rightarrow> Inl e
                   | Inr le \<Rightarrow> (if \<not> le then Inr False else Inr True))))))"
      by (simp add: subnets_equal_def all)
    show ?thesis
    proof (cases "domains_equal data subnet")
      case (Inl x)
      with e show ?thesis by simp
    next
      case de: (Inr de)
      show ?thesis
      proof (cases "organizations_equal u data subnet")
        case (Inl x)
        with e de show ?thesis by simp
      next
        case oe: (Inr oe)
        show ?thesis
        proof (cases "locations_equal u data subnet")
          case (Inl x)
          with e de oe show ?thesis by simp
        next
          case (Inr le)
          with e de oe True show ?thesis by simp
        qed
      qed
    qed
  qed
  have 3: "reads_only (compared @ ''domains'' # org_keys @ loc_keys) (subnets_equal u)"
    if h: "reads_only org_keys (organizations_equal u) \<and> reads_only loc_keys (locations_equal u)"
    unfolding reads_only_def
  proof (intro allI impI)
    fix d s d' s' :: pydict
    assume a: "\<forall>k\<in>set (compared @ ''domains'' # org_keys @ loc_keys).
                 map_of d k = map_of d' k \<and> map_of s k = map_of s' k"
    then have c: "list_all (\<lambda>key. py_eq (dict_get d key) (dict_get s key)) comparable_keys
       = list_all (\<lambda>key. py_eq (dict_get d' key) (dict_get s' key)) comparable_keys"
      by (intro comparable_reads) (simp add: ck)
    from a have dm: "domains_equal d s = domains_equal d' s'"
      by (intro domains_equal_reads) simp_all
    from a h have o: "organizations_equal u d s = organizations_equal u d' s'"
      by (intro reads_onlyD [of org_keys]) simp_all
    from a h have l: "locations_equal u d s = locations_equal u d' s'"
      by (intro reads_onlyD [of loc_keys]) simp_all
    show "subnets_equal u d s = subnets_equal u d' s'"
      unfolding subnets_equal_def c dm o l by (rule refl)
  qed
  show ?thesis
  proof (intro conjI)
    show "(\<exists>k\<in>set compared. \<not> py_eq (dict_get data k) (dict_get subnet k))
            \<longrightarrow> subnets_equal u data subnet = Inr False"
      by (rule 1)
    show "subnets_equal u data subnet = Inr True \<longleftrightarrow>
            (\<forall>k\<in>set compared. py_eq (dict_get data k) (dict_get subnet k))
            \<and> domains_equal data subnet = Inr True
            \<and> organizations_equal u data subnet = Inr True
            \<and> locations_equal u data subnet = Inr True"
      by (rule 2)
    show "reads_only org_keys (organizations_equal u) \<and> reads_only loc_keys (locations_equal u)
            \<longrightarrow> reads_only (compared @ ''domains'' # org_keys @ loc_keys) (subnets_equal u)"
      by (intro impI) (rule 3)
  qed
qed

text \<open>
  With the helpers modelled from the spec, and a record that lists the two organizations
  in another order: another netmask makes the result false, the record as desired makes
  it true, and keys outside the set, added to the data and to the record, do not change
  it.
\<close>

theorem subnets_equal_fixed_fields_witness:
  "subnets_equal spec_utils assigned_data
     (dict_set assigned_record ''mask'' (PStr ''255.255.0.0'')) = Inr False
   \<and> subnets_equal spec_utils assigned_data assigned_record = Inr True
   \<and> subnets_equal spec_utils (assigned_data @ [(''comment'', PStr ''lab'')])
        (assigned_record @ [(''created_at'', PStr ''today'')])
      = subnets_equal spec_utils assigned_data assigned_record"
proof (intro conjI)
  show "subnets_equal spec_utils assigned_data
     (dict_set assigned_record ''mask'' (PStr ''255.255.0.0'')) = Inr False"
    by (rule subnets_equal_fixed_fields [OF refl, THEN conjunct1, THEN mp,
          OF assigned_mask_differs])
  show "subnets_equal spec_utils assigned_data assigned_record = Inr True"
    by (rule subnets_equal_fixed_fields [OF refl, THEN conjunct2, THEN conjunct1, THEN iffD2,
          OF assigned_all_equal])
  show "subnets_equal spec_utils (assigned_data @ [(''comment'', PStr ''lab'')])
        (assigned_record @ [(''created_at'', PStr ''today'')])
      = subnets_equal spec_utils assigned_data assigned_record"
    by (rule reads_onlyD [OF subnets_equal_fixed_fields [OF refl, THEN conjunct2,
          THEN conjunct2, THEN mp, OF spec_utils_reads] assigned_foreign_keys])
qed

text \<open>
  C10. When the parameters ask for state \<open>absent\<close>, the search by name finds no subnet and
  every reference resolves, \<open>ensure\<close> issues no mutating call, leaves the remote state
  as it is and returns \<open>(False, None)\<close>.
\<close>

theorem ensure_absent_missing:
  assumes "map_of params ''name'' = Some name"
    and "map_of params ''state'' = Some (PStr ''absent'')"
    and "map_of params ''locations'' = Some locations"
    and "map_of params ''organizations'' = Some organizations"
    and "search_subnet c [(''name'', name)] s = Inr None"
    and "resolve_references c params organizations locations [(''name'', name)] s
           = (Inr data, s, lookups)"
  shows "ensure u c params s
           = (Inr (False, None), s, SearchSubnet [(''name'', name)] # lookups)
         \<and> filter is_mutating (calls (ensure u c params s)) = []"
proof -
  have f: "fetch_subnet c [(''name'', name)] s = (Inr None, s, [SearchSubnet [(''name'', name)]])"
    using assms(5) by (simp add: fetch_subnet_none found_def)
  have a: "apply_change u c (PStr ''absent'') None data s = (Inr (False, None), s, [])"
    by (simp add: apply_change_def run_defs)
  have e: "ensure u c params s
           = (Inr (False, None), s, [SearchSubnet [(''name'', name)]] @ lookups @ [])"
    by (rule ensure_decided [OF assms(1-4) f assms(6) a])
  have "list_all is_lookup lookups"
    using resolve_references_shape [OF assms(6)] by simp
  then have "filter is_mutating lookups = []" by (rule lookups_no_write)
  with e show ?thesis by (simp add: calls_def)
qed

text \<open>
  The example parameters with state \<open>absent\<close>, against an empty remote.
\<close>

theorem ensure_absent_missing_witness:
  "ensure lenient_utils mem_client (example_params ''absent'') (example_store [])
     = (Inr (False, None), example_store [],
        SearchSubnet [(''name'', PStr ''MySubnet'')] # example_lookups)"
  using ensure_absent_missing [of "example_params ''absent''" "PStr ''MySubnet''" PNone PNone
      mem_client "example_store []" example_data example_lookups lenient_utils]
  by (simp add: example_params_simps example_search_empty example_resolve_mem)

end
